theory Spec2Isabelle
  imports Complex_Main "HOL-Library.AList"
begin

section \<open>Python values, dictionaries and errors\<close>

text \<open>
  The adapter in \<^verbatim>\<open>embedding.py\<close> handles strings, JSON-like document records and the
  result dictionaries produced by the search primitive. Values are modelled by one
  datatype; floats are idealised as reals. A dictionary is an association list with
  distinct keys in insertion order, as a Python \<^verbatim>\<open>dict\<close> is; dictionaries are the only
  mutable objects the code writes to, so they live in a store and are referred to by
  address (\<open>PRef\<close>).
\<close>

datatype pyval = PNone | PBool bool | PInt int | PFloat real | PStr string | PRef nat

type_synonym pydict = "(string \<times> pyval) list"

type_synonym store = "pydict list"

datatype error =
    TypeError string
  | ValueError string
  | KeyError string
  | IndexError
  | FileExistsError string
  | FileNotFoundError string
  | NotADirectoryError string
  | LibraryError string

type_synonym 'a result = "error + 'a"

text \<open>A dynamically typed argument that either is an instance of the type the callee
  checks for (and carries its value) or is not.\<close>

datatype 'a checked = Is 'a | IsNot

text \<open>\<^verbatim>\<open>error.type_check(log_code, type, arg=arg)\<close> of the host framework: raises a type
  error tagged with the log code when the argument is not an instance.\<close>

definition type_check :: "string \<Rightarrow> 'a checked \<Rightarrow> 'a result" where
  "type_check log_code arg = (case arg of Is v \<Rightarrow> Inr v | IsNot \<Rightarrow> Inl (TypeError log_code))"

text \<open>\<^verbatim>\<open>error.value_check(log_code, condition, msg)\<close>: raises a value error tagged with the
  log code when the condition is false.\<close>

definition value_check :: "string \<Rightarrow> bool \<Rightarrow> unit result" where
  "value_check log_code condition = (if condition then Inr () else Inl (ValueError log_code))"

text \<open>Python truth value testing, as used by \<^verbatim>\<open>or\<close> and \<^verbatim>\<open>not\<close>: \<^verbatim>\<open>None\<close>, \<^verbatim>\<open>False\<close>,
  zero, the empty string and the empty dictionary are false.\<close>

fun truthy :: "store \<Rightarrow> pyval \<Rightarrow> bool" where
  "truthy h PNone = False"
| "truthy h (PBool b) = b"
| "truthy h (PInt i) = (i \<noteq> 0)"
| "truthy h (PFloat r) = (r \<noteq> 0)"
| "truthy h (PStr s) = (s \<noteq> [])"
| "truthy h (PRef a) = (h ! a \<noteq> [])"

text \<open>\<^verbatim>\<open>d.get(key)\<close> and \<^verbatim>\<open>d.get(key, default)\<close>.\<close>

definition dict_get :: "pydict \<Rightarrow> string \<Rightarrow> pyval" where
  "dict_get d k = (case map_of d k of None \<Rightarrow> PNone | Some v \<Rightarrow> v)"

definition dict_get_default :: "pydict \<Rightarrow> string \<Rightarrow> pyval \<Rightarrow> pyval" where
  "dict_get_default d k dflt = (case map_of d k of None \<Rightarrow> dflt | Some v \<Rightarrow> v)"

text \<open>\<^verbatim>\<open>a or b\<close> on already evaluated operands.\<close>

definition py_or :: "store \<Rightarrow> pyval \<Rightarrow> pyval \<Rightarrow> pyval" where
  "py_or h a b = (if truthy h a then a else b)"

text \<open>\<^verbatim>\<open>xs[i]\<close> for a list and a value used as index: negative indices count from the
  end, an index out of range raises.\<close>

definition py_index :: "'a list \<Rightarrow> pyval \<Rightarrow> 'a result" where
  "py_index xs v =
     (case v of
        PInt i \<Rightarrow>
          (if 0 \<le> i \<and> i < int (length xs) then Inr (xs ! nat i)
           else if i < 0 \<and> - int (length xs) \<le> i then Inr (xs ! nat (int (length xs) + i))
           else Inl IndexError)
      | _ \<Rightarrow> Inl (TypeError ''list indices must be integers''))"

section \<open>The local helper \<^verbatim>\<open>get_text\<close>\<close>

text \<open>
  \<^verbatim>\<open>def get_text(srd): return srd.get("text") or srd.get("_text", "")\<close>
\<close>

definition get_text :: "store \<Rightarrow> pydict \<Rightarrow> pyval" where
  "get_text h srd = py_or h (dict_get srd ''text'') (dict_get_default srd ''_text'' (PStr ''''))"

text \<open>The same extraction in the specification's words: the \<^verbatim>\<open>"text"\<close> field if present
  and non-empty, else the \<^verbatim>\<open>"_text"\<close> field if present, else the empty string. A value is
  non-empty when Python does not treat it as false; for a string that is \<open>s \<noteq> ''''\<close>.\<close>

definition spec_get_text :: "store \<Rightarrow> pydict \<Rightarrow> pyval" where
  "spec_get_text h srd =
     (if ''text'' \<in> fst ` set srd \<and> truthy h (the (map_of srd ''text''))
      then the (map_of srd ''text'')
      else if ''_text'' \<in> fst ` set srd then the (map_of srd ''_text'')
      else PStr '''')"

section \<open>The model handle and the world the operations run in\<close>

text \<open>
  The wrapped \<^verbatim>\<open>SentenceTransformer\<close> is an external collaborator. The handle exposes what
  the adapter uses of it: the number of input ids the tokenizer yields for a text
  (\<^verbatim>\<open>len(self.model[0].tokenizer(text, ...).input_ids)\<close>), the maximum sequence length, and
  the embedding of a text. Encoding a batch yields the embeddings of its elements in
  order.
\<close>

record 'v sentence_transformer =
  tokenizer :: "pyval \<Rightarrow> nat"
  max_seq_length :: nat
  encode :: "pyval \<Rightarrow> 'v"

datatype enc_call = EncodeOne pyval | EncodeBatch "pyval list"

text \<open>The world: the store of dictionary objects (an address is a position) and the log
  of the calls made to the embedding function.\<close>

record world =
  heap :: store
  encode_calls :: "enc_call list"

definition model_encode :: "'v sentence_transformer \<Rightarrow> pyval \<Rightarrow> world \<Rightarrow> 'v \<times> world" where
  "model_encode m t w = (encode m t, w\<lparr>encode_calls := encode_calls w @ [EncodeOne t]\<rparr>)"

definition model_encode_batch ::
  "'v sentence_transformer \<Rightarrow> pyval list \<Rightarrow> world \<Rightarrow> 'v list \<times> world" where
  "model_encode_batch m ts w =
     (map (encode m) ts, w\<lparr>encode_calls := encode_calls w @ [EncodeBatch ts]\<rparr>)"

section \<open>The truncation guard\<close>

definition prevent_truncation :: "'v sentence_transformer \<Rightarrow> pyval \<Rightarrow> unit result" where
  "prevent_truncation m t =
     (let tokens = tokenizer m t; max_tokens = max_seq_length m
      in value_check ''<NLP08391926E>'' (tokens \<le> max_tokens))"

text \<open>\<^verbatim>\<open>for text in texts: self._prevent_truncation(text)\<close>: the first failure ends the
  loop.\<close>

fun prevent_truncation_each :: "'v sentence_transformer \<Rightarrow> pyval list \<Rightarrow> unit result" where
  "prevent_truncation_each m [] = Inr ()"
| "prevent_truncation_each m (t # ts) =
     (case prevent_truncation m t of
        Inl e \<Rightarrow> Inl e
      | Inr _ \<Rightarrow> prevent_truncation_each m ts)"

section \<open>Embeddings\<close>

text \<open>Modelled from the spec: the data-model classes \<^verbatim>\<open>Vector1D\<close> and \<^verbatim>\<open>ListOfVector1D\<close>
  of the package \<^verbatim>\<open>caikit_embeddings.data_model\<close>. A Vector wraps the ordered sequence of
  numbers the encoder produced; a VectorBatch is an ordered sequence of Vectors.\<close>

datatype 'v Vector1D = Vector1D 'v

definition from_embeddings :: "'v \<Rightarrow> 'v Vector1D" where
  "from_embeddings e = Vector1D e"

datatype 'v ListOfVector1D = ListOfVector1D "'v Vector1D list"

definition run_embedding ::
  "'v sentence_transformer \<Rightarrow> string checked \<Rightarrow> world \<Rightarrow> 'v Vector1D result \<times> world" where
  "run_embedding m txt w =
     (case type_check ''<NLP27491611E>'' txt of
        Inl e \<Rightarrow> (Inl e, w)
      | Inr t \<Rightarrow>
          (case prevent_truncation m (PStr t) of
             Inl e \<Rightarrow> (Inl e, w)
           | Inr _ \<Rightarrow>
               (let (e, w') = model_encode m (PStr t) w
                in (Inr (from_embeddings e), w'))))"

text \<open>The argument of \<^verbatim>\<open>run_embeddings\<close> is a list of strings or, as the code allows, one
  bare string.\<close>

datatype texts_arg = BareStr string | TextList "string list"

definition run_embeddings ::
  "'v sentence_transformer \<Rightarrow> texts_arg \<Rightarrow> world \<Rightarrow> 'v ListOfVector1D result \<times> world" where
  "run_embeddings m texts w =
     (let texts = (case texts of BareStr s \<Rightarrow> [s] | TextList ts \<Rightarrow> ts)
      in case prevent_truncation_each m (map PStr texts) of
           Inl e \<Rightarrow> (Inl e, w)
         | Inr _ \<Rightarrow>
             (let (embeddings, w') = model_encode_batch m (map PStr texts) w;
                  results = map from_embeddings embeddings
              in (Inr (ListOfVector1D results), w')))"

section \<open>Sentence similarity\<close>

text \<open>
  The functions of \<^verbatim>\<open>sentence_transformers.util\<close> are external. Their pairwise kernels are
  parameters: the cosine similarity and the dot product of two embeddings, and the
  L2-normalisation of one embedding. \<^verbatim>\<open>cos_sim(a, b)\<close> returns the matrix whose row \<open>i\<close>,
  column \<open>j\<close> compares \<open>a[i]\<close> with \<open>b[j]\<close>; a single embedding is promoted to a one-row
  batch.
\<close>

record 'v util =
  cos :: "'v \<Rightarrow> 'v \<Rightarrow> real"
  dot :: "'v \<Rightarrow> 'v \<Rightarrow> real"
  normalize :: "'v \<Rightarrow> 'v"

definition cos_sim :: "'v util \<Rightarrow> 'v list \<Rightarrow> 'v list \<Rightarrow> real list list" where
  "cos_sim u as bs = map (\<lambda>a. map (cos u a) bs) as"

definition normalize_embeddings :: "'v util \<Rightarrow> 'v list \<Rightarrow> 'v list" where
  "normalize_embeddings u es = map (normalize u) es"

text \<open>Modelled from the spec: the data-model classes \<^verbatim>\<open>SentenceScores\<close> and
  \<^verbatim>\<open>SentenceListScores\<close> of the package \<^verbatim>\<open>caikit_embeddings.data_model\<close>. A
  SimilarityScoreList is an ordered sequence of scores, one per candidate sentence; the
  result for several sources is a list of such lists.\<close>

datatype SentenceScores = SentenceScores "real list"

datatype SentenceListScores = SentenceListScores "SentenceScores list"

definition run_sentence_similarity ::
  "'v util \<Rightarrow> 'v sentence_transformer \<Rightarrow> string \<Rightarrow> string list \<Rightarrow> world
     \<Rightarrow> SentenceScores result \<times> world" where
  "run_sentence_similarity u m source_sentence sentences w =
     (case prevent_truncation m (PStr source_sentence) of
        Inl e \<Rightarrow> (Inl e, w)
      | Inr _ \<Rightarrow>
          (case prevent_truncation_each m (map PStr sentences) of
             Inl e \<Rightarrow> (Inl e, w)
           | Inr _ \<Rightarrow>
               (let (source_embedding, w1) = model_encode m (PStr source_sentence) w;
                    (embeddings, w2) = model_encode_batch m (map PStr sentences) w1;
                    res = cos_sim u [source_embedding] embeddings
                in case py_index res (PInt 0) of
                     Inl e \<Rightarrow> (Inl e, w2)
                   | Inr row \<Rightarrow> (Inr (SentenceScores row), w2))))"

definition run_sentence_similarities ::
  "'v util \<Rightarrow> 'v sentence_transformer \<Rightarrow> string list \<Rightarrow> string list \<Rightarrow> world
     \<Rightarrow> SentenceListScores result \<times> world" where
  "run_sentence_similarities u m source_sentences sentences w =
     (case prevent_truncation_each m (map PStr source_sentences) of
        Inl e \<Rightarrow> (Inl e, w)
      | Inr _ \<Rightarrow>
          (case prevent_truncation_each m (map PStr sentences) of
             Inl e \<Rightarrow> (Inl e, w)
           | Inr _ \<Rightarrow>
               (let (source_embedding, w1) = model_encode_batch m (map PStr source_sentences) w;
                    (embeddings, w2) = model_encode_batch m (map PStr sentences) w1;
                    res = cos_sim u source_embedding embeddings;
                    float_list_list = res
                in (Inr (SentenceListScores (map SentenceScores float_list_list)), w2))))"

section \<open>Reranking\<close>

subsection \<open>The search primitive\<close>

text \<open>
  Modelled from the spec: \<^verbatim>\<open>sentence_transformers.util.semantic_search\<close>, an external
  function. For each query it computes the score against every document and retains the
  \<open>top_k\<close> highest-scoring documents, ordered by descending score. Each hit is a freshly
  created dictionary with the keys \<^verbatim>\<open>"corpus_id"\<close> (the position of the document) and
  \<^verbatim>\<open>"score"\<close>; the result holds, per query, the list of its hits. The order among equal
  scores is the model's choice (a stable sort); nothing below depends on it.
\<close>

definition search_hits :: "('v \<Rightarrow> 'v \<Rightarrow> real) \<Rightarrow> int \<Rightarrow> 'v list \<Rightarrow> 'v \<Rightarrow> pydict list" where
  "search_hits score_function top_k corpus q =
     map (\<lambda>(i, s). [(''corpus_id'', PInt (int i)), (''score'', PFloat s)])
       (take (nat top_k)
          (sort_key (\<lambda>(i, s). - s) (zip [0..<length corpus] (map (score_function q) corpus))))"

text \<open>Creating dictionaries: each gets the next unused address.\<close>

definition alloc_dicts :: "pydict list \<Rightarrow> world \<Rightarrow> nat list \<times> world" where
  "alloc_dicts ds w =
     ([length (heap w)..<length (heap w) + length ds], w\<lparr>heap := heap w @ ds\<rparr>)"

fun semantic_search ::
  "('v \<Rightarrow> 'v \<Rightarrow> real) \<Rightarrow> int \<Rightarrow> 'v list \<Rightarrow> 'v list \<Rightarrow> world \<Rightarrow> nat list list \<times> world" where
  "semantic_search score_function top_k corpus [] w = ([], w)"
| "semantic_search score_function top_k corpus (q # qs) w =
     (let (r, w1) = alloc_dicts (search_hits score_function top_k corpus q) w;
          (rs, w2) = semantic_search score_function top_k corpus qs w1
      in (r # rs, w2))"

subsection \<open>Result records\<close>

text \<open>Modelled from the spec: the data-model classes \<^verbatim>\<open>RerankScore\<close>,
  \<^verbatim>\<open>RerankQueryResult\<close> and \<^verbatim>\<open>RerankPrediction\<close> of the package
  \<^verbatim>\<open>caikit_embeddings.data_model\<close>. A score carries the candidate index, the score and,
  optionally, the original document record (held by reference) and the extracted text; a
  query result carries the optionally echoed query and the ordered scores.\<close>

record RerankScore =
  rs_document :: "nat option"
  rs_index :: int
  rs_score :: real
  rs_text :: "pyval option"

record RerankQueryResult =
  rq_query :: "string option"
  rq_scores :: "RerankScore list"

datatype RerankPrediction = RerankPrediction "RerankQueryResult list"

text \<open>\<^verbatim>\<open>RerankScore(**x)\<close>: the entries of the dictionary become the fields; an entry that
  is no field, a missing required field or a field of the wrong type is refused.\<close>

definition RerankScore_of :: "pydict \<Rightarrow> RerankScore result" where
  "RerankScore_of x =
     (if \<not> list_all (\<lambda>k. k \<in> set [''document'', ''index'', ''score'', ''text'']) (map fst x)
      then Inl (TypeError ''RerankScore'')
      else case (map_of x ''index'', map_of x ''score'') of
             (Some (PInt i), Some (PFloat s)) \<Rightarrow>
               (case map_of x ''document'' of
                  None \<Rightarrow>
                    Inr \<lparr>rs_document = None, rs_index = i, rs_score = s,
                         rs_text = map_of x ''text''\<rparr>
                | Some (PRef a) \<Rightarrow>
                    Inr \<lparr>rs_document = Some a, rs_index = i, rs_score = s,
                         rs_text = map_of x ''text''\<rparr>
                | Some _ \<Rightarrow> Inl (TypeError ''RerankScore''))
           | _ \<Rightarrow> Inl (TypeError ''RerankScore''))"

subsection \<open>Mutating a result dictionary\<close>

text \<open>\<^verbatim>\<open>x.pop(key)\<close> and \<^verbatim>\<open>x[key] = value\<close> on the dictionary at address \<open>x\<close>.\<close>

definition dict_pop :: "nat \<Rightarrow> string \<Rightarrow> world \<Rightarrow> pyval result \<times> world" where
  "dict_pop x k w =
     (case map_of (heap w ! x) k of
        None \<Rightarrow> (Inl (KeyError k), w)
      | Some v \<Rightarrow> (Inr v, w\<lparr>heap := (heap w)[x := AList.delete k (heap w ! x)]\<rparr>))"

definition dict_set :: "nat \<Rightarrow> string \<Rightarrow> pyval \<Rightarrow> world \<Rightarrow> world" where
  "dict_set x k v w = w\<lparr>heap := (heap w)[x := AList.update k v (heap w ! x)]\<rparr>"

text \<open>\<^verbatim>\<open>x["document"] = documents[corpus_id]\<close> and
  \<^verbatim>\<open>x["text"] = get_text(documents[corpus_id])\<close>.\<close>

definition attach_document :: "nat list \<Rightarrow> pyval \<Rightarrow> nat \<Rightarrow> world \<Rightarrow> unit result \<times> world" where
  "attach_document documents corpus_id x w =
     (case py_index documents corpus_id of
        Inl e \<Rightarrow> (Inl e, w)
      | Inr a \<Rightarrow> (Inr (), dict_set x ''document'' (PRef a) w))"

definition attach_text :: "nat list \<Rightarrow> pyval \<Rightarrow> nat \<Rightarrow> world \<Rightarrow> unit result \<times> world" where
  "attach_text documents corpus_id x w =
     (case py_index documents corpus_id of
        Inl e \<Rightarrow> (Inl e, w)
      | Inr a \<Rightarrow> (Inr (), dict_set x ''text'' (get_text (heap w) (heap w ! a)) w))"

text \<open>The body of the loop \<^verbatim>\<open>for x in r\<close> under \<^verbatim>\<open># Fixup result dicts\<close>.\<close>

definition fixup :: "nat list \<Rightarrow> bool \<Rightarrow> bool \<Rightarrow> nat \<Rightarrow> world \<Rightarrow> unit result \<times> world" where
  "fixup documents return_documents return_text x w =
     (case dict_pop x ''corpus_id'' w of
        (Inl e, w1) \<Rightarrow> (Inl e, w1)
      | (Inr corpus_id, w1) \<Rightarrow>
          (let w2 = dict_set x ''index'' corpus_id w1
           in case (if return_documents then attach_document documents corpus_id x w2
                    else (Inr (), w2)) of
                (Inl e, w3) \<Rightarrow> (Inl e, w3)
              | (Inr _, w3) \<Rightarrow>
                  (if return_text then attach_text documents corpus_id x w3
                   else (Inr (), w3))))"

fun fixup_row :: "nat list \<Rightarrow> bool \<Rightarrow> bool \<Rightarrow> nat list \<Rightarrow> world \<Rightarrow> unit result \<times> world" where
  "fixup_row documents rd rt [] w = (Inr (), w)"
| "fixup_row documents rd rt (x # xs) w =
     (case fixup documents rd rt x w of
        (Inl e, w') \<Rightarrow> (Inl e, w')
      | (Inr _, w') \<Rightarrow> fixup_row documents rd rt xs w')"

fun fixup_rows :: "nat list \<Rightarrow> bool \<Rightarrow> bool \<Rightarrow> nat list list \<Rightarrow> world \<Rightarrow> unit result \<times> world" where
  "fixup_rows documents rd rt [] w = (Inr (), w)"
| "fixup_rows documents rd rt (r # rs) w =
     (case fixup_row documents rd rt r w of
        (Inl e, w') \<Rightarrow> (Inl e, w')
      | (Inr _, w') \<Rightarrow> fixup_rows documents rd rt rs w')"

subsection \<open>The rerank operations\<close>

text \<open>A list comprehension whose elements may raise: the first failure, in order, is the
  outcome.\<close>

fun collect :: "'a result list \<Rightarrow> 'a list result" where
  "collect [] = Inr []"
| "collect (r # rs) =
     (case r of
        Inl e \<Rightarrow> Inl e
      | Inr v \<Rightarrow> (case collect rs of Inl e \<Rightarrow> Inl e | Inr vs \<Rightarrow> Inr (v # vs)))"

text \<open>\<^verbatim>\<open>def add_query(q): return queries[q] if return_queries else None\<close>\<close>

definition add_query :: "string list \<Rightarrow> bool \<Rightarrow> nat \<Rightarrow> string option result" where
  "add_query queries return_queries q =
     (if return_queries
      then (case py_index queries (PInt (int q)) of Inl e \<Rightarrow> Inl e | Inr s \<Rightarrow> Inr (Some s))
      else Inr None)"

text \<open>\<^verbatim>\<open>RerankQueryResult(query=add_query(q), scores=[RerankScore(**x) for x in r])\<close>\<close>

definition query_result ::
  "string list \<Rightarrow> bool \<Rightarrow> store \<Rightarrow> nat \<times> nat list \<Rightarrow> RerankQueryResult result" where
  "query_result queries return_queries h qr =
     (case qr of (q, r) \<Rightarrow>
        (case add_query queries return_queries q of
           Inl e \<Rightarrow> Inl e
         | Inr qo \<Rightarrow>
             (case collect (map (\<lambda>x. RerankScore_of (h ! x)) r) of
                Inl e \<Rightarrow> Inl e
              | Inr scores \<Rightarrow> Inr \<lparr>rq_query = qo, rq_scores = scores\<rparr>)))"

text \<open>
  \<^verbatim>\<open>run_rerank_queries\<close>. The documents are the addresses of the caller's document
  records. Moving the embeddings to the model's device does not change them and is left
  out.
\<close>

definition run_rerank_queries ::
  "'v util \<Rightarrow> 'v sentence_transformer \<Rightarrow> string list checked \<Rightarrow> nat list checked \<Rightarrow> int option
     \<Rightarrow> bool \<Rightarrow> bool \<Rightarrow> bool \<Rightarrow> world \<Rightarrow> RerankPrediction result \<times> world" where
  "run_rerank_queries u m queries documents top_n return_documents return_queries return_text w =
     (case type_check ''<NLP09038249E>'' queries of
        Inl e \<Rightarrow> (Inl e, w)
      | Inr queries \<Rightarrow>
     (case type_check ''<NLP09038249E>'' documents of
        Inl e \<Rightarrow> (Inl e, w)
      | Inr documents \<Rightarrow>
     if length queries < 1 \<or> length documents < 1 then (Inr (RerankPrediction []), w)
     else
       (let top_n = (case top_n of
                       None \<Rightarrow> int (length documents)
                     | Some n \<Rightarrow> if n < 1 then int (length documents) else n);
            doc_texts = map (\<lambda>srd. get_text (heap w) (heap w ! srd)) documents
        in case prevent_truncation_each m doc_texts of
             Inl e \<Rightarrow> (Inl e, w)
           | Inr _ \<Rightarrow>
        (case prevent_truncation_each m (map PStr queries) of
             Inl e \<Rightarrow> (Inl e, w)
           | Inr _ \<Rightarrow>
        (let (doc_embeddings, w1) = model_encode_batch m doc_texts w;
             doc_embeddings = normalize_embeddings u doc_embeddings;
             (query_embeddings, w2) = model_encode_batch m (map PStr queries) w1;
             query_embeddings = normalize_embeddings u query_embeddings;
             (res, w3) = semantic_search (dot u) top_n doc_embeddings query_embeddings w2
         in case fixup_rows documents return_documents return_text res w3 of
              (Inl e, w4) \<Rightarrow> (Inl e, w4)
            | (Inr _, w4) \<Rightarrow>
                (case collect (map (query_result queries return_queries (heap w4))
                                 (enumerate 0 res)) of
                   Inl e \<Rightarrow> (Inl e, w4)
                 | Inr results \<Rightarrow> (Inr (RerankPrediction results), w4)))))))"

definition run_rerank_query ::
  "'v util \<Rightarrow> 'v sentence_transformer \<Rightarrow> string checked \<Rightarrow> nat list checked \<Rightarrow> int option
     \<Rightarrow> bool \<Rightarrow> bool \<Rightarrow> bool \<Rightarrow> world \<Rightarrow> RerankQueryResult result \<times> world" where
  "run_rerank_query u m query documents top_n return_documents return_query return_text w =
     (case type_check ''<NLP05323654E>'' query of
        Inl e \<Rightarrow> (Inl e, w)
      | Inr query \<Rightarrow>
          (case run_rerank_queries u m (Is [query]) documents top_n
                  return_documents return_query return_text w of
             (Inl e, w') \<Rightarrow> (Inl e, w')
           | (Inr (RerankPrediction results), w') \<Rightarrow>
               (if length results > 0 then (Inr (results ! 0), w')
                else (Inr \<lparr>rq_query = (if return_query then Some query else None),
                           rq_scores = []\<rparr>, w'))))"

section \<open>Loading and saving the model handle\<close>

subsection \<open>The process environment\<close>

text \<open>
  The module-level switches \<^verbatim>\<open>IPEX_OPTIMIZE\<close>, \<^verbatim>\<open>USE_XPU\<close>, \<^verbatim>\<open>USE_MPS\<close> and
  \<^verbatim>\<open>PT2_COMPILE\<close> are fixed when the module is imported; \<^verbatim>\<open>load\<close> and \<^verbatim>\<open>_optimize\<close> only
  read them.
\<close>

record flags =
  IPEX_OPTIMIZE :: bool
  USE_XPU :: bool
  USE_MPS :: bool
  PT2_COMPILE :: bool

datatype backend = Ipex | Mps | Inductor

datatype node = Directory | ConfigFile "(string \<times> string) list" | ModelFile string

type_synonym filesystem = "(string \<times> node) list"

text \<open>
  The calls into external libraries made by \<^verbatim>\<open>load\<close>, \<^verbatim>\<open>_optimize\<close> and \<^verbatim>\<open>save\<close>; each may
  raise. \<open>'m\<close> is the type of a loaded \<^verbatim>\<open>SentenceTransformer\<close>.
  \<^item> \<open>cuda_is_available\<close>: \<^verbatim>\<open>torch.cuda.is_available()\<close>;
  \<^item> \<open>SentenceTransformer\<close>: the constructor, reading the artifacts under a path for a
    device;
  \<^item> \<open>model_to\<close>: \<^verbatim>\<open>model.to(device(gpu))\<close>;
  \<^item> \<open>ipex_optimize\<close>: \<^verbatim>\<open>ipex.optimize(model)\<close>;
  \<^item> \<open>torch_compile\<close>: \<^verbatim>\<open>torch.compile(model, backend=backend, mode="max-autotune")\<close>;
  \<^item> \<open>model_save\<close>: \<^verbatim>\<open>model.save(path, create_model_card=True)\<close>, writing to the file
    system;
  \<^item> \<open>abspath\<close>: \<^verbatim>\<open>os.path.abspath\<close>, fixed by the working directory of the process.
\<close>

record 'm externals =
  cuda_is_available :: bool
  SentenceTransformer :: "filesystem \<Rightarrow> string \<Rightarrow> string option \<Rightarrow> 'm result"
  model_to :: "'m \<Rightarrow> string \<Rightarrow> 'm result"
  ipex_optimize :: "'m \<Rightarrow> 'm result"
  torch_compile :: "'m \<Rightarrow> backend \<Rightarrow> 'm result"
  model_save :: "'m \<Rightarrow> string \<Rightarrow> filesystem \<Rightarrow> filesystem result"
  abspath :: "string \<Rightarrow> string"

text \<open>The state \<^verbatim>\<open>load\<close> runs in: the file system and the warnings logged so far.\<close>

record host =
  fs :: filesystem
  warnings :: "string list"

subsection \<open>Paths and the file system\<close>

text \<open>\<^verbatim>\<open>os.path.join(a, b)\<close> for two components on a POSIX system.\<close>

definition path_join :: "string \<Rightarrow> string \<Rightarrow> string" where
  "path_join a b =
     (if b \<noteq> [] \<and> hd b = CHR ''/'' then b
      else if a = [] \<or> last a = CHR ''/'' then a @ b
      else a @ ''/'' @ b)"

text \<open>\<^verbatim>\<open>str.strip()\<close>: leading and trailing whitespace is removed (the ASCII whitespace
  characters).\<close>

definition is_space :: "char \<Rightarrow> bool" where
  "is_space c =
     (let n = (of_char c :: nat) in (9 \<le> n \<and> n \<le> 13) \<or> (28 \<le> n \<and> n \<le> 32))"

definition strip :: "string \<Rightarrow> string" where
  "strip s = rev (dropWhile is_space (rev (dropWhile is_space s)))"

text \<open>\<^verbatim>\<open>os.makedirs(path, exist_ok=False)\<close>: refuses a path that exists, otherwise creates
  the directory. Intermediate directories are not tracked.\<close>

definition makedirs :: "string \<Rightarrow> filesystem \<Rightarrow> filesystem result" where
  "makedirs path d =
     (case map_of d path of
        Some _ \<Rightarrow> Inl (FileExistsError path)
      | None \<Rightarrow> Inr (AList.update path Directory d))"

text \<open>\<^verbatim>\<open>error.dir_check(log_code, path)\<close> of the host framework: the path must exist and be a
  directory.\<close>

definition dir_check :: "string \<Rightarrow> filesystem \<Rightarrow> string \<Rightarrow> unit result" where
  "dir_check log_code d path =
     (case map_of d path of
        None \<Rightarrow> Inl (FileNotFoundError log_code)
      | Some Directory \<Rightarrow> Inr ()
      | Some _ \<Rightarrow> Inl (NotADirectoryError log_code))"

subsection \<open>The configuration record\<close>

text \<open>
  Modelled from the spec: \<^verbatim>\<open>ModuleConfig\<close> and \<^verbatim>\<open>ModuleSaver\<close> of the host framework. The
  persisted artifact layout is a directory containing a config record (key-value) with
  an \<^verbatim>\<open>"artifacts_path"\<close> entry naming a subdirectory. Loading reads the record from the
  file \<^verbatim>\<open>config.yml\<close> of the directory and remembers the directory; saving writes it
  there. A fresh saver starts from the metadata of the \<^verbatim>\<open>@module\<close> declaration.
\<close>

record module_config =
  entries :: "(string \<times> string) list"
  config_model_path :: string

definition ModuleConfig_load :: "filesystem \<Rightarrow> string \<Rightarrow> module_config result" where
  "ModuleConfig_load d model_path =
     (case map_of d (path_join model_path ''config.yml'') of
        Some (ConfigFile c) \<Rightarrow> Inr \<lparr>entries = c, config_model_path = model_path\<rparr>
      | _ \<Rightarrow> Inl (FileNotFoundError (path_join model_path ''config.yml'')))"

definition ModuleConfig_save :: "(string \<times> string) list \<Rightarrow> string \<Rightarrow> filesystem \<Rightarrow> filesystem" where
  "ModuleConfig_save c model_path d =
     AList.update (path_join model_path ''config.yml'') (ConfigFile c) d"

definition ModuleSaver_config :: "(string \<times> string) list" where
  "ModuleSaver_config =
     [(''module_id'', ''EEB12558-B4FA-4F34-A9FD-3F5890E9CD3F''),
      (''name'', ''Text Embedding''),
      (''version'', ''0.0.1'')]"

definition ARTIFACTS_PATH_KEY :: string where
  "ARTIFACTS_PATH_KEY = ''artifacts_path''"

definition ARTIFACTS_PATH_DEFAULT :: string where
  "ARTIFACTS_PATH_DEFAULT = ''artifacts''"

subsection \<open>\<^verbatim>\<open>_optimize\<close>, \<^verbatim>\<open>load\<close> and \<^verbatim>\<open>save\<close>\<close>

datatype 'm TextEmbedding = TextEmbedding 'm

text \<open>
  \<^verbatim>\<open>_optimize\<close>: the vendor optimization is called outside any \<^verbatim>\<open>try\<close>; the compilation
  is inside one whose handler logs a warning and keeps the model it had.
\<close>

definition optimize ::
  "flags \<Rightarrow> 'm externals \<Rightarrow> 'm \<Rightarrow> string list \<Rightarrow> 'm result \<times> string list" where
  "optimize f x model lg =
     (case (if IPEX_OPTIMIZE f
            then (case ipex_optimize x model of
                    Inl e \<Rightarrow> Inl e
                  | Inr model' \<Rightarrow> Inr (model', Ipex))
            else if USE_MPS f then Inr (model, Mps)
            else Inr (model, Inductor)) of
        Inl e \<Rightarrow> (Inl e, lg)
      | Inr (model, backend) \<Rightarrow>
          (if PT2_COMPILE f
           then (case torch_compile x model backend of
                   Inl e \<Rightarrow>
                     (Inr model,
                      lg @ [''PT2_COMPILE enabled in env, but continuing without torch.compile()''])
                 | Inr model' \<Rightarrow> (Inr model', lg))
           else (Inr model, lg)))"

definition load ::
  "flags \<Rightarrow> 'm externals \<Rightarrow> string \<Rightarrow> host \<Rightarrow> 'm TextEmbedding result \<times> host" where
  "load f x model_path s =
     (case ModuleConfig_load (fs s) model_path of
        Inl e \<Rightarrow> (Inl e, s)
      | Inr config \<Rightarrow>
     (let artifacts_path = map_of (entries config) ARTIFACTS_PATH_KEY
      in case value_check ''<NLP07391618E>''
                (case artifacts_path of None \<Rightarrow> False | Some a \<Rightarrow> a \<noteq> []) of
           Inl e \<Rightarrow> (Inl e, s)
         | Inr _ \<Rightarrow>
     (let artifacts_path = path_join (config_model_path config) (the artifacts_path)
      in case dir_check ''<NLP34197772E>'' (fs s) artifacts_path of
           Inl e \<Rightarrow> (Inl e, s)
         | Inr _ \<Rightarrow>
     (let gpu = (if USE_XPU f then Some ''xpu''
                 else if USE_MPS f then Some ''mps''
                 else if cuda_is_available x then Some ''cuda''
                 else None)
      in case SentenceTransformer x (fs s) artifacts_path gpu of
           Inl e \<Rightarrow> (Inl e, s)
         | Inr model \<Rightarrow>
     (case (case gpu of None \<Rightarrow> Inr model | Some g \<Rightarrow> model_to x model g) of
        Inl e \<Rightarrow> (Inl e, s)
      | Inr model \<Rightarrow>
     (case optimize f x model (warnings s) of
        (Inl e, lg) \<Rightarrow> (Inl e, s\<lparr>warnings := lg\<rparr>)
      | (Inr model, lg) \<Rightarrow> (Inr (TextEmbedding model), s\<lparr>warnings := lg\<rparr>)))))))"

definition save ::
  "'m externals \<Rightarrow> 'm TextEmbedding \<Rightarrow> string checked \<Rightarrow> filesystem \<Rightarrow> unit result \<times> filesystem" where
  "save x self model_path d =
     (case self of TextEmbedding model \<Rightarrow>
     (case type_check ''<NLP82314992E>'' model_path of
        Inl e \<Rightarrow> (Inl e, d)
      | Inr model_config_path \<Rightarrow>
     (case value_check ''<NLP40145207E>'' (strip model_config_path \<noteq> []) of
        Inl e \<Rightarrow> (Inl e, d)
      | Inr _ \<Rightarrow>
     (let model_config_path = abspath x (strip model_config_path)
      in case makedirs model_config_path d of
           Inl e \<Rightarrow> (Inl e, d)
         | Inr d1 \<Rightarrow>
     (let saver_config = ModuleSaver_config;
          artifacts_path = map_of saver_config ARTIFACTS_PATH_KEY;
          (artifacts_path, saver_config) =
             (case artifacts_path of
                Some a \<Rightarrow>
                  (if a \<noteq> [] then (a, saver_config)
                   else (ARTIFACTS_PATH_DEFAULT,
                         AList.update ARTIFACTS_PATH_KEY ARTIFACTS_PATH_DEFAULT saver_config))
              | None \<Rightarrow>
                  (ARTIFACTS_PATH_DEFAULT,
                   AList.update ARTIFACTS_PATH_KEY ARTIFACTS_PATH_DEFAULT saver_config));
          artifacts_path = abspath x (path_join model_config_path artifacts_path)
      in case model_save x model artifacts_path d1 of
           Inl e \<Rightarrow> (Inl e, d1)
         | Inr d2 \<Rightarrow> (Inr (), ModuleConfig_save saver_config model_config_path d2))))))"

section \<open>Vocabulary of the properties\<close>

text \<open>A text exceeds the limit when the tokenizer yields more input ids than the model's
  maximum sequence length; the guard then raises the value error tagged
  \<^verbatim>\<open><NLP08391926E>\<close>.\<close>

definition too_long :: "'v sentence_transformer \<Rightarrow> pyval \<Rightarrow> bool" where
  "too_long m t \<longleftrightarrow> max_seq_length m < tokenizer m t"

definition truncation_error :: "error" where
  "truncation_error = ValueError ''<NLP08391926E>''"

text \<open>The addresses handed out by the search primitive: consecutive blocks, one per
  query, starting at the first unused address.\<close>

fun ranges :: "nat \<Rightarrow> nat list \<Rightarrow> nat list list" where
  "ranges n [] = []"
| "ranges n (l # ls) = [n..<n + l] # ranges (n + l) ls"

text \<open>The hits of one query before they are turned into dictionaries, the dictionary of
  a hit, and the dictionary a hit has become after the fix-up loop.\<close>

definition ranked :: "('v \<Rightarrow> 'v \<Rightarrow> real) \<Rightarrow> int \<Rightarrow> 'v list \<Rightarrow> 'v \<Rightarrow> (nat \<times> real) list" where
  "ranked sf k corpus q =
     take (nat k) (sort_key (\<lambda>(i, s). - s) (zip [0..<length corpus] (map (sf q) corpus)))"

definition hit_dict :: "nat \<times> real \<Rightarrow> pydict" where
  "hit_dict p = [(''corpus_id'', PInt (int (fst p))), (''score'', PFloat (snd p))]"

definition fixed_dict :: "nat list \<Rightarrow> bool \<Rightarrow> bool \<Rightarrow> nat \<Rightarrow> real \<Rightarrow> pyval \<Rightarrow> pydict" where
  "fixed_dict documents rd rt i s t =
     [(''score'', PFloat s), (''index'', PInt (int i))]
     @ (if rd then [(''document'', PRef (documents ! i))] else [])
     @ (if rt then [(''text'', t)] else [])"

text \<open>A row of result dictionaries converts to score records carrying the scores and the
  document positions of the given hits, in order.\<close>

definition row_ok :: "store \<Rightarrow> nat list \<Rightarrow> (nat \<times> real) list \<Rightarrow> bool" where
  "row_ok h xs hs \<longleftrightarrow>
     (\<exists>scs. collect (map (\<lambda>x. RerankScore_of (h ! x)) xs) = Inr scs
            \<and> map rs_score scs = map snd hs
            \<and> map rs_index scs = map (\<lambda>p. int (fst p)) hs)"

text \<open>The score of a document record for a query, as the search computes it: the dot
  product of the normalized embedding of the query and the normalized embedding of the
  text of the document.\<close>

definition doc_score :: "'v util \<Rightarrow> 'v sentence_transformer \<Rightarrow> store \<Rightarrow> string \<Rightarrow> nat \<Rightarrow> real" where
  "doc_score u m h query srd =
     dot u (normalize u (encode m (PStr query))) (normalize u (encode m (get_text h (h ! srd))))"

subsection \<open>Example inputs\<close>

text \<open>A model whose tokenizer counts the characters of a string, with a limit of four
  tokens and a one-dimensional embedding; three document records; a file system with a
  loadable artifact directory, one whose config lacks the artifacts key and one whose
  artifacts directory is gone; external calls whose optimizations fail.\<close>

definition example_model :: "real sentence_transformer" where
  "example_model =
     \<lparr>tokenizer = (\<lambda>v. case v of PStr s \<Rightarrow> length s | _ \<Rightarrow> 0),
      max_seq_length = 4,
      encode = (\<lambda>v. case v of PStr s \<Rightarrow> real (length s) | _ \<Rightarrow> 0)\<rparr>"

definition example_util :: "real util" where
  "example_util = \<lparr>cos = (\<lambda>a b. a * b), dot = (\<lambda>a b. a * b), normalize = (\<lambda>a. a)\<rparr>"

definition example_world :: world where
  "example_world =
     \<lparr>heap = [[(''text'', PStr ''ab'')], [(''_text'', PStr ''abcd'')], [(''title'', PStr ''x'')]],
      encode_calls = []\<rparr>"

definition example_fs :: filesystem where
  "example_fs =
     [(''/m'', Directory),
      (''/m/config.yml'', ConfigFile [(''artifacts_path'', ''artifacts'')]),
      (''/m/artifacts'', Directory),
      (''/bad'', Directory),
      (''/bad/config.yml'', ConfigFile [(''name'', ''Text Embedding'')]),
      (''/gone'', Directory),
      (''/gone/config.yml'', ConfigFile [(''artifacts_path'', ''artifacts'')])]"

definition example_externals :: "string externals" where
  "example_externals =
     \<lparr>cuda_is_available = False,
      SentenceTransformer = (\<lambda>d p g. Inr p),
      model_to = (\<lambda>m g. Inr m),
      ipex_optimize = (\<lambda>m. Inl (LibraryError ''ipex.optimize'')),
      torch_compile = (\<lambda>m b. Inl (LibraryError ''torch.compile'')),
      model_save = (\<lambda>m p d. Inr (AList.update p Directory d)),
      abspath = (\<lambda>p. p)\<rparr>"

definition example_host :: host where
  "example_host = \<lparr>fs = example_fs, warnings = []\<rparr>"

definition example_flags :: flags where
  "example_flags =
     \<lparr>IPEX_OPTIMIZE = True, USE_XPU = False, USE_MPS = False, PT2_COMPILE = True\<rparr>"

text \<open>Reranking the three document records for the query \<^verbatim>\<open>"a"\<close>: the store once the
  search has created its hits, the store after the fix-up loop, and the scores returned.
  The texts of the records are \<^verbatim>\<open>"ab"\<close>, \<^verbatim>\<open>"abcd"\<close> and the empty string, so the scores
  are 2, 4 and 0.\<close>

definition example_found :: world where
  "example_found =
     \<lparr>heap = [[(''text'', PStr ''ab'')], [(''_text'', PStr ''abcd'')], [(''title'', PStr ''x'')],
              [(''corpus_id'', PInt 1), (''score'', PFloat 4)],
              [(''corpus_id'', PInt 0), (''score'', PFloat 2)],
              [(''corpus_id'', PInt 2), (''score'', PFloat 0)]],
      encode_calls = [EncodeBatch [PStr ''ab'', PStr ''abcd'', PStr ''''], EncodeBatch [PStr ''a'']]\<rparr>"

definition example_fixed :: world where
  "example_fixed =
     \<lparr>heap = [[(''text'', PStr ''ab'')], [(''_text'', PStr ''abcd'')], [(''title'', PStr ''x'')],
              [(''score'', PFloat 4), (''index'', PInt 1), (''document'', PRef 1),
               (''text'', PStr ''abcd'')],
              [(''score'', PFloat 2), (''index'', PInt 0), (''document'', PRef 0),
               (''text'', PStr ''ab'')],
              [(''score'', PFloat 0), (''index'', PInt 2), (''document'', PRef 2),
               (''text'', PStr '''')]],
      encode_calls = [EncodeBatch [PStr ''ab'', PStr ''abcd'', PStr ''''], EncodeBatch [PStr ''a'']]\<rparr>"

definition example_scores :: "RerankScore list" where
  "example_scores =
     [\<lparr>rs_document = Some 1, rs_index = 1, rs_score = 4, rs_text = Some (PStr ''abcd'')\<rparr>,
      \<lparr>rs_document = Some 0, rs_index = 0, rs_score = 2, rs_text = Some (PStr ''ab'')\<rparr>,
      \<lparr>rs_document = Some 2, rs_index = 2, rs_score = 0, rs_text = Some (PStr '''')\<rparr>]"

section \<open>Properties of the helpers\<close>

lemma prevent_truncation_iff:
  "prevent_truncation m t =
     (if tokenizer m t \<le> max_seq_length m then Inr () else Inl (ValueError ''<NLP08391926E>''))"
  by (simp add: prevent_truncation_def value_check_def)

lemma prevent_truncation_each_iff:
  "prevent_truncation_each m ts =
     (if \<forall>t\<in>set ts. tokenizer m t \<le> max_seq_length m then Inr ()
      else Inl (ValueError ''<NLP08391926E>''))"
  by (induction ts) (simp_all add: prevent_truncation_iff)

lemma in_keys_iff: "k \<in> fst ` set d \<longleftrightarrow> map_of d k \<noteq> None"
  by (simp add: map_of_eq_None_iff)

lemma get_text_refines: "get_text h srd = spec_get_text h srd"
  unfolding get_text_def spec_get_text_def py_or_def dict_get_def dict_get_default_def in_keys_iff
  by (cases "map_of srd ''text''"; cases "map_of srd ''_text''") simp_all

lemma prevent_truncation_too_long:
  "too_long m v \<Longrightarrow> prevent_truncation m v = Inl truncation_error"
  by (simp add: too_long_def truncation_error_def prevent_truncation_iff)

lemma prevent_truncation_within:
  "\<not> too_long m v \<Longrightarrow> prevent_truncation m v = Inr ()"
  by (simp add: too_long_def prevent_truncation_iff)

lemma prevent_truncation_each_too_long:
  "v \<in> set vs \<Longrightarrow> too_long m v \<Longrightarrow> prevent_truncation_each m vs = Inl truncation_error"
  by (force simp: too_long_def truncation_error_def prevent_truncation_each_iff not_le)

lemma prevent_truncation_each_within:
  "\<forall>v\<in>set vs. \<not> too_long m v \<Longrightarrow> prevent_truncation_each m vs = Inr ()"
  by (auto simp: too_long_def prevent_truncation_each_iff)

lemma prevent_truncation_each_cases:
  "prevent_truncation_each m vs = Inr () \<or> prevent_truncation_each m vs = Inl truncation_error"
  by (simp add: truncation_error_def prevent_truncation_each_iff)

subsection \<open>The guard in each operation\<close>

lemma run_embedding_too_long:
  "too_long m (PStr t) \<Longrightarrow> run_embedding m (Is t) w = (Inl truncation_error, w)"
  by (simp add: run_embedding_def type_check_def prevent_truncation_too_long)

lemma run_embeddings_too_long:
  "t \<in> set ts \<Longrightarrow> too_long m (PStr t)
     \<Longrightarrow> run_embeddings m (TextList ts) w = (Inl truncation_error, w)"
  by (simp add: run_embeddings_def prevent_truncation_each_too_long [of "PStr t"])

lemma run_embeddings_bare_too_long:
  "too_long m (PStr t) \<Longrightarrow> run_embeddings m (BareStr t) w = (Inl truncation_error, w)"
  by (simp add: run_embeddings_def prevent_truncation_too_long)

lemma run_sentence_similarity_too_long:
  assumes "too_long m (PStr t)" and "t = src \<or> t \<in> set cs"
  shows "run_sentence_similarity u m src cs w = (Inl truncation_error, w)"
proof (cases "too_long m (PStr src)")
  case True
  then show ?thesis
    by (simp add: run_sentence_similarity_def prevent_truncation_too_long)
next
  case False
  with assms have "t \<in> set cs" by auto
  with assms(1) have "prevent_truncation_each m (map PStr cs) = Inl truncation_error"
    by (intro prevent_truncation_each_too_long [of "PStr t"]) simp_all
  with False show ?thesis
    by (simp add: run_sentence_similarity_def prevent_truncation_within)
qed

lemma run_sentence_similarities_too_long:
  assumes "too_long m (PStr t)" and "t \<in> set srcs \<or> t \<in> set cs"
  shows "run_sentence_similarities u m srcs cs w = (Inl truncation_error, w)"
proof (cases "prevent_truncation_each m (map PStr srcs) = Inr ()")
  case True
  have "t \<notin> set srcs"
  proof
    assume "t \<in> set srcs"
    with assms(1) have "prevent_truncation_each m (map PStr srcs) = Inl truncation_error"
      by (intro prevent_truncation_each_too_long [of "PStr t"]) simp_all
    with True show False by simp
  qed
  with assms have "t \<in> set cs" by auto
  with assms(1) have "prevent_truncation_each m (map PStr cs) = Inl truncation_error"
    by (intro prevent_truncation_each_too_long [of "PStr t"]) simp_all
  with True show ?thesis
    by (simp add: run_sentence_similarities_def)
next
  case False
  with prevent_truncation_each_cases [of m "map PStr srcs"]
  have "prevent_truncation_each m (map PStr srcs) = Inl truncation_error" by blast
  then show ?thesis by (simp add: run_sentence_similarities_def)
qed

lemma run_rerank_queries_too_long:
  assumes "queries \<noteq> []" and "documents \<noteq> []"
      and "(\<exists>t\<in>set queries. too_long m (PStr t))
           \<or> (\<exists>a\<in>set documents. too_long m (get_text (heap w) (heap w ! a)))"
  shows "run_rerank_queries u m (Is queries) (Is documents) top_n rd rq rt w
           = (Inl truncation_error, w)"
proof -
  let ?dt = "map (\<lambda>srd. get_text (heap w) (heap w ! srd)) documents"
  show ?thesis
  proof (cases "prevent_truncation_each m ?dt = Inr ()")
    case True
    have "\<not> (\<exists>a\<in>set documents. too_long m (get_text (heap w) (heap w ! a)))"
    proof
      assume "\<exists>a\<in>set documents. too_long m (get_text (heap w) (heap w ! a))"
      then obtain a where "a \<in> set documents" "too_long m (get_text (heap w) (heap w ! a))"
        by blast
      then have "prevent_truncation_each m ?dt = Inl truncation_error"
        by (intro prevent_truncation_each_too_long [of "get_text (heap w) (heap w ! a)"]) simp_all
      with True show False by simp
    qed
    with assms(3) obtain t where "t \<in> set queries" "too_long m (PStr t)" by blast
    then have "prevent_truncation_each m (map PStr queries) = Inl truncation_error"
      by (intro prevent_truncation_each_too_long [of "PStr t"]) simp_all
    with True assms(1,2) show ?thesis
      by (simp add: run_rerank_queries_def type_check_def)
  next
    case False
    with prevent_truncation_each_cases [of m ?dt]
    have "prevent_truncation_each m ?dt = Inl truncation_error" by blast
    with assms(1,2) show ?thesis
      by (simp add: run_rerank_queries_def type_check_def)
  qed
qed

lemma run_rerank_query_too_long:
  assumes "documents \<noteq> []"
      and "too_long m (PStr q)
           \<or> (\<exists>a\<in>set documents. too_long m (get_text (heap w) (heap w ! a)))"
  shows "run_rerank_query u m (Is q) (Is documents) top_n rd rq rt w
           = (Inl truncation_error, w)"
proof -
  have "run_rerank_queries u m (Is [q]) (Is documents) top_n rd rq rt w
          = (Inl truncation_error, w)"
    using assms by (intro run_rerank_queries_too_long) auto
  then show ?thesis by (simp add: run_rerank_query_def type_check_def)
qed

subsection \<open>The search primitive allocates fresh dictionaries\<close>

lemma semantic_search_shape:
  "semantic_search sf k corpus qs w = (res, w') \<Longrightarrow>
     heap w' = heap w @ concat (map (search_hits sf k corpus) qs)
     \<and> encode_calls w' = encode_calls w
     \<and> res = ranges (length (heap w)) (map (\<lambda>q. length (search_hits sf k corpus q)) qs)"
proof (induction qs arbitrary: w res w')
  case Nil
  then show ?case by simp
next
  case (Cons q qs)
  obtain r w1 where a: "alloc_dicts (search_hits sf k corpus q) w = (r, w1)"
    by (cases "alloc_dicts (search_hits sf k corpus q) w")
  obtain rs w2 where s: "semantic_search sf k corpus qs w1 = (rs, w2)"
    by (cases "semantic_search sf k corpus qs w1")
  from Cons.prems a s have eq: "res = r # rs" "w' = w2" by simp_all
  from a have w1: "heap w1 = heap w @ search_hits sf k corpus q"
    "encode_calls w1 = encode_calls w"
    "r = [length (heap w)..<length (heap w) + length (search_hits sf k corpus q)]"
    by (auto simp: alloc_dicts_def)
  from Cons.IH [OF s] w1 eq show ?case by simp
qed

lemma ranges_ge: "r \<in> set (ranges n ls) \<Longrightarrow> x \<in> set r \<Longrightarrow> n \<le> x"
proof (induction ls arbitrary: n)
  case Nil
  then show ?case by simp
next
  case (Cons l ls)
  from Cons.prems(1) consider "r = [n..<n + l]" | "r \<in> set (ranges (n + l) ls)" by auto
  then show ?case
  proof cases
    case 1
    with Cons.prems(2) show ?thesis by simp
  next
    case 2
    from Cons.IH [OF 2 Cons.prems(2)] show ?thesis by simp
  qed
qed

lemma concat_ranges: "concat (ranges n ls) = [n..<n + sum_list ls]"
proof (induction ls arbitrary: n)
  case Nil
  then show ?case by simp
next
  case (Cons l ls)
  have "[n..<n + (l + sum_list ls)] = [n..<n + l] @ [n + l..<n + l + sum_list ls]"
    using upt_add_eq_append [of n "n + l" "sum_list ls"] by (simp add: add.assoc)
  with Cons.IH [of "n + l"] show ?case by simp
qed

lemma nth_window: "map ((!) (p @ d @ r)) [length p..<length p + length d] = d"
  by (rule nth_equalityI) (simp_all add: nth_append)

lemma ranges_content:
  "list_all2 (\<lambda>r ds. map ((!) (p @ concat dss)) r = ds) (ranges (length p) (map length dss)) dss"
proof (induction dss arbitrary: p)
  case Nil
  then show ?case by simp
next
  case (Cons d dss)
  from Cons.IH [of "p @ d"] show ?case by (simp add: nth_window)
qed

lemma search_hits_ranked: "search_hits sf k corpus q = map hit_dict (ranked sf k corpus q)"
  by (simp add: search_hits_def ranked_def hit_dict_def split_def)

lemma length_ranked: "length (ranked sf k corpus q) = min (nat k) (length corpus)"
  by (simp add: ranked_def)

lemma ranked_index:
  assumes "p \<in> set (ranked sf k corpus q)"
  shows "fst p < length corpus"
proof -
  from assms have "p \<in> set (sort_key (\<lambda>(i, s). - s) (zip [0..<length corpus] (map (sf q) corpus)))"
    unfolding ranked_def by (rule in_set_takeD)
  then have "(fst p, snd p) \<in> set (zip [0..<length corpus] (map (sf q) corpus))"
    by simp
  then have "fst p \<in> set [0..<length corpus]"
    by (rule set_zip_leftD)
  then show ?thesis by simp
qed

lemma ranked_sorted: "sorted_wrt (\<ge>) (map snd (ranked sf k corpus q))"
proof -
  let ?xs = "sort_key (\<lambda>(i, s). - s) (zip [0..<length corpus] (map (sf q) corpus))"
  have "sorted (map (\<lambda>(i, s). - s) ?xs)" by (rule sorted_sort_key)
  then have "sorted (map (\<lambda>(i, s). - s) (take (nat k) ?xs))"
    by (simp add: take_map [symmetric] sorted_wrt_take)
  then show ?thesis
    by (simp add: ranked_def sorted_wrt_map split_def)
qed

lemma fst_indexed: "map fst (zip [0..<length corpus] (map f corpus)) = [0..<length corpus]"
  by simp

lemma ranked_fst_distinct: "distinct (map fst (ranked sf k corpus q))"
proof -
  define xs where "xs = zip [0..<length corpus] (map (sf q) corpus)"
  define ys where "ys = sort_key (\<lambda>(i, s). - s) xs"
  have fx: "map fst xs = [0..<length corpus]" unfolding xs_def by (rule fst_indexed)
  have "distinct (map fst xs)" by (simp only: fx) simp
  then have "distinct xs" and "inj_on fst (set xs)" by (simp_all add: distinct_map)
  then have "distinct ys" and "inj_on fst (set ys)" by (simp_all add: ys_def)
  then have "distinct (map fst ys)" by (simp add: distinct_map)
  then have "distinct (take (nat k) (map fst ys))" by (rule distinct_take)
  then show ?thesis by (simp add: ranked_def take_map xs_def ys_def)
qed

lemma ranked_fst_all:
  assumes "length corpus \<le> nat k"
  shows "fst ` set (ranked sf k corpus q) = {0..<length corpus}"
proof -
  define xs where "xs = zip [0..<length corpus] (map (sf q) corpus)"
  have fx: "map fst xs = [0..<length corpus]" unfolding xs_def by (rule fst_indexed)
  have lx: "length xs = length corpus" by (simp add: xs_def)
  from assms lx have "ranked sf k corpus q = sort_key (\<lambda>(i, s). - s) xs"
    by (simp add: ranked_def xs_def)
  then have "fst ` set (ranked sf k corpus q) = fst ` set xs" by simp
  also have "\<dots> = set (map fst xs)" by simp
  also have "\<dots> = {0..<length corpus}" by (simp only: fx) simp
  finally show ?thesis .
qed

lemma ranked_score:
  assumes "p \<in> set (ranked sf k corpus q)"
  shows "snd p = sf q (corpus ! fst p)"
proof -
  from assms have "p \<in> set (sort_key (\<lambda>(i, s). - s) (zip [0..<length corpus] (map (sf q) corpus)))"
    unfolding ranked_def by (rule in_set_takeD)
  then have "p \<in> set (zip [0..<length corpus] (map (sf q) corpus))" by simp
  then obtain i where "i < length corpus" "p = (i, sf q (corpus ! i))"
    by (auto simp: in_set_zip)
  then show ?thesis by simp
qed

lemma ranked_top:
  assumes p: "p \<in> set (ranked sf k corpus q)"
      and j: "j < length corpus"
      and n: "j \<notin> fst ` set (ranked sf k corpus q)"
  shows "sf q (corpus ! j) \<le> snd p"
proof -
  define xs where "xs = zip [0..<length corpus] (map (sf q) corpus)"
  define ys where "ys = sort_key (\<lambda>(i, s). - s) xs"
  define c where "c = (j, sf q (corpus ! j))"
  have r: "ranked sf k corpus q = take (nat k) ys"
    by (simp add: ranked_def xs_def ys_def)
  from j have "c \<in> set xs"
    unfolding xs_def c_def by (auto simp: in_set_zip intro!: exI [of _ j])
  then have "c \<in> set ys" by (simp add: ys_def)
  then have "c \<in> set (take (nat k) ys @ drop (nat k) ys)" by simp
  then have "c \<in> set (take (nat k) ys) \<or> c \<in> set (drop (nat k) ys)"
    by (simp only: set_append Un_iff)
  moreover have "c \<notin> set (take (nat k) ys)"
  proof
    assume "c \<in> set (take (nat k) ys)"
    then have "fst c \<in> fst ` set (ranked sf k corpus q)" by (simp add: r)
    with n show False by (simp add: c_def)
  qed
  ultimately have cd: "c \<in> set (drop (nat k) ys)" by blast
  have "sorted (map (\<lambda>(i, s). - s) ys)" unfolding ys_def by (rule sorted_sort_key)
  then have "sorted (map (\<lambda>(i, s). - s) (take (nat k) ys) @ map (\<lambda>(i, s). - s) (drop (nat k) ys))"
    by (simp only: map_append [symmetric] append_take_drop_id)
  then have "\<forall>a\<in>set (take (nat k) ys). \<forall>b\<in>set (drop (nat k) ys).
      (\<lambda>(i, s). - s) a \<le> (\<lambda>(i, s). - s) b"
    by (simp add: sorted_append)
  with p cd r have "(\<lambda>(i, s). - s) p \<le> (\<lambda>(i, s). - s) c" by simp
  then show ?thesis by (simp add: split_def c_def)
qed

subsection \<open>The fix-up loop writes only to the addresses it is given\<close>

lemma dict_set_frame:
  "n \<le> x \<Longrightarrow> take n (heap (dict_set x k v w)) = take n (heap w)"
  by (simp add: dict_set_def)

lemma dict_pop_frame:
  "n \<le> x \<Longrightarrow> dict_pop x k w = (r, w') \<Longrightarrow> take n (heap w') = take n (heap w)"
  by (auto simp: dict_pop_def split: option.splits)

lemma attach_document_frame:
  "n \<le> x \<Longrightarrow> attach_document documents c x w = (r, w') \<Longrightarrow> take n (heap w') = take n (heap w)"
  by (auto simp: attach_document_def dict_set_frame split: sum.splits)

lemma attach_text_frame:
  "n \<le> x \<Longrightarrow> attach_text documents c x w = (r, w') \<Longrightarrow> take n (heap w') = take n (heap w)"
  by (auto simp: attach_text_def dict_set_frame split: sum.splits)

lemma fixup_frame:
  assumes "n \<le> x" and "fixup documents rd rt x w = (r, w')"
  shows "take n (heap w') = take n (heap w)"
proof (cases "dict_pop x ''corpus_id'' w")
  case (Pair p w1)
  note pop = dict_pop_frame [OF assms(1) Pair]
  show ?thesis
  proof (cases p)
    case (Inl e)
    with Pair assms(2) pop show ?thesis by (simp add: fixup_def)
  next
    case (Inr c)
    let ?w2 = "dict_set x ''index'' c w1"
    have w2: "take n (heap ?w2) = take n (heap w)"
      using pop assms(1) by (simp add: dict_set_frame)
    obtain r3 w3 where d: "(if rd then attach_document documents c x ?w2 else (Inr (), ?w2)) = (r3, w3)"
      by (cases "if rd then attach_document documents c x ?w2 else (Inr (), ?w2)")
    have w3: "take n (heap w3) = take n (heap w)"
      using d w2 attach_document_frame [OF assms(1)] by (auto split: if_splits)
    show ?thesis
    proof (cases r3)
      case (Inl e)
      with Pair Inr d assms(2) w3 show ?thesis by (simp add: fixup_def Let_def)
    next
      case (Inr u)
      with Pair \<open>p = Inr c\<close> d assms(2)
      have "(if rt then attach_text documents c x w3 else (Inr (), w3)) = (r, w')"
        by (simp add: fixup_def Let_def)
      then show ?thesis
        using w3 attach_text_frame [OF assms(1)] by (auto split: if_splits)
    qed
  qed
qed

lemma fixup_row_frame:
  "\<forall>x\<in>set xs. n \<le> x \<Longrightarrow> fixup_row documents rd rt xs w = (r, w')
     \<Longrightarrow> take n (heap w') = take n (heap w)"
proof (induction xs arbitrary: w)
  case Nil
  then show ?case by simp
next
  case (Cons x xs)
  obtain r1 w1 where f: "fixup documents rd rt x w = (r1, w1)"
    by (cases "fixup documents rd rt x w")
  have w1: "take n (heap w1) = take n (heap w)"
    using fixup_frame [OF _ f] Cons.prems(1) by simp
  show ?case
  proof (cases r1)
    case (Inl e)
    with f Cons.prems(2) w1 show ?thesis by simp
  next
    case (Inr u)
    with f Cons.prems(2) have "fixup_row documents rd rt xs w1 = (r, w')" by simp
    with Cons.IH [of w1] Cons.prems(1) w1 show ?thesis by simp
  qed
qed

lemma fixup_rows_frame:
  "\<forall>r\<in>set rs. \<forall>x\<in>set r. n \<le> x \<Longrightarrow> fixup_rows documents rd rt rs w = (res, w')
     \<Longrightarrow> take n (heap w') = take n (heap w)"
proof (induction rs arbitrary: w)
  case Nil
  then show ?case by simp
next
  case (Cons r rs)
  obtain r1 w1 where f: "fixup_row documents rd rt r w = (r1, w1)"
    by (cases "fixup_row documents rd rt r w")
  have w1: "take n (heap w1) = take n (heap w)"
    using fixup_row_frame [OF _ f] Cons.prems(1) by simp
  show ?case
  proof (cases r1)
    case (Inl e)
    with f Cons.prems(2) w1 show ?thesis by simp
  next
    case (Inr u)
    with f Cons.prems(2) have "fixup_rows documents rd rt rs w1 = (res, w')" by simp
    with Cons.IH [of w1] Cons.prems(1) w1 show ?thesis by simp
  qed
qed

lemma rerank_tail_frame:
  assumes s: "semantic_search sf k corpus qs w2 = (res, w3)"
      and f: "fixup_rows documents rd rt res w3 = (r, w4)"
  shows "take (length (heap w2)) (heap w4) = heap w2"
proof -
  from semantic_search_shape [OF s]
  have h3: "heap w3 = heap w2 @ concat (map (search_hits sf k corpus) qs)"
    and res: "res = ranges (length (heap w2)) (map (\<lambda>q. length (search_hits sf k corpus q)) qs)"
    by simp_all
  have "\<forall>r\<in>set res. \<forall>x\<in>set r. length (heap w2) \<le> x"
    using res ranges_ge by blast
  from fixup_rows_frame [OF this f] h3 show ?thesis by simp
qed

subsection \<open>The fix-up loop on the hits of the search\<close>

lemma RerankScore_of_fixed:
  "\<exists>r. RerankScore_of (fixed_dict documents rd rt i s t) = Inr r \<and> rs_score r = s \<and> rs_index r = int i"
  by (cases rd; cases rt) (simp_all add: fixed_dict_def RerankScore_of_def)

lemma fixup_hit:
  assumes x: "x < length (heap w)"
      and h: "heap w ! x = hit_dict (i, s)"
      and i: "i < length documents"
  shows "\<exists>t. fixup documents rd rt x w
              = (Inr (), w\<lparr>heap := (heap w)[x := fixed_dict documents rd rt i s t]\<rparr>)"
  using assms
  by (cases rd; cases rt)
     (auto simp: fixup_def dict_pop_def dict_set_def attach_document_def attach_text_def
        py_index_def hit_dict_def fixed_dict_def)

lemma row_ok_cong:
  "\<forall>x\<in>set xs. h' ! x = h ! x \<Longrightarrow> row_ok h' xs hs = row_ok h xs hs"
proof -
  assume "\<forall>x\<in>set xs. h' ! x = h ! x"
  then have "map (\<lambda>x. RerankScore_of (h' ! x)) xs = map (\<lambda>x. RerankScore_of (h ! x)) xs"
    by simp
  then show ?thesis unfolding row_ok_def by (simp only:)
qed

lemma fixup_row_hits:
  assumes "distinct xs"
      and "\<forall>x\<in>set xs. x < length (heap w)"
      and "map (\<lambda>x. heap w ! x) xs = map hit_dict hs"
      and "\<forall>p\<in>set hs. fst p < length documents"
  shows "\<exists>w'. fixup_row documents rd rt xs w = (Inr (), w')
            \<and> length (heap w') = length (heap w)
            \<and> encode_calls w' = encode_calls w
            \<and> (\<forall>y. y \<notin> set xs \<longrightarrow> heap w' ! y = heap w ! y)
            \<and> row_ok (heap w') xs hs"
  using assms
proof (induction xs arbitrary: w hs)
  case Nil
  then show ?case by (simp add: row_ok_def)
next
  case (Cons x xs)
  from Cons.prems(3) obtain p hs' where hs: "hs = p # hs'"
    and hx: "heap w ! x = hit_dict p"
    and rest: "map (\<lambda>x. heap w ! x) xs = map hit_dict hs'"
    by (cases hs) auto
  from Cons.prems(2) have xlt: "x < length (heap w)" by simp
  from Cons.prems(4) hs have plt: "fst p < length documents" by simp
  from fixup_hit [OF xlt _ plt, of "snd p" rd rt] hx
  obtain t where fx: "fixup documents rd rt x w
      = (Inr (), w\<lparr>heap := (heap w)[x := fixed_dict documents rd rt (fst p) (snd p) t]\<rparr>)"
    by auto
  let ?D = "fixed_dict documents rd rt (fst p) (snd p) t"
  let ?w1 = "w\<lparr>heap := (heap w)[x := ?D]\<rparr>"
  from Cons.prems(1) have xn: "x \<notin> set xs" and dxs: "distinct xs" by simp_all
  have p2: "\<forall>y\<in>set xs. y < length (heap ?w1)" using Cons.prems(2) by simp
  have p3: "map (\<lambda>y. heap ?w1 ! y) xs = map hit_dict hs'"
  proof -
    have "\<And>y. y \<in> set xs \<Longrightarrow> heap ?w1 ! y = heap w ! y"
    proof -
      fix y
      assume "y \<in> set xs"
      with xn have "x \<noteq> y" by auto
      then show "heap ?w1 ! y = heap w ! y" by simp
    qed
    then have "map (\<lambda>y. heap ?w1 ! y) xs = map (\<lambda>y. heap w ! y) xs"
      by (intro map_cong) simp_all
    with rest show ?thesis by simp
  qed
  have p4: "\<forall>p\<in>set hs'. fst p < length documents" using Cons.prems(4) hs by simp
  from Cons.IH [OF dxs p2 p3 p4]
  obtain w' where row: "fixup_row documents rd rt xs ?w1 = (Inr (), w')"
    and len: "length (heap w') = length (heap ?w1)"
    and enc: "encode_calls w' = encode_calls ?w1"
    and frame: "\<forall>y. y \<notin> set xs \<longrightarrow> heap w' ! y = heap ?w1 ! y"
    and ok: "row_ok (heap w') xs hs'"
    by blast
  from frame xn xlt have hx': "heap w' ! x = ?D" by simp
  obtain r where r: "RerankScore_of ?D = Inr r" "rs_score r = snd p" "rs_index r = int (fst p)"
    using RerankScore_of_fixed by blast
  from ok obtain scs where scs: "collect (map (\<lambda>x. RerankScore_of (heap w' ! x)) xs) = Inr scs"
    "map rs_score scs = map snd hs'" "map rs_index scs = map (\<lambda>p. int (fst p)) hs'"
    by (auto simp: row_ok_def)
  have ok': "row_ok (heap w') (x # xs) hs"
    unfolding row_ok_def using hx' r scs hs by simp
  have fr': "\<forall>y. y \<notin> set (x # xs) \<longrightarrow> heap w' ! y = heap w ! y"
    using frame by simp
  from fx row have "fixup_row documents rd rt (x # xs) w = (Inr (), w')" by simp
  with len enc fr' ok' show ?case by simp
qed

lemma fixup_rows_hits:
  assumes "distinct (concat rs)"
      and "\<forall>r\<in>set rs. \<forall>x\<in>set r. x < length (heap w)"
      and "list_all2 (\<lambda>r hs. map (\<lambda>x. heap w ! x) r = map hit_dict hs) rs hss"
      and "\<forall>hs\<in>set hss. \<forall>p\<in>set hs. fst p < length documents"
  shows "\<exists>w'. fixup_rows documents rd rt rs w = (Inr (), w')
            \<and> length (heap w') = length (heap w)
            \<and> encode_calls w' = encode_calls w
            \<and> (\<forall>y. y \<notin> set (concat rs) \<longrightarrow> heap w' ! y = heap w ! y)
            \<and> list_all2 (row_ok (heap w')) rs hss"
  using assms
proof (induction rs arbitrary: w hss)
  case Nil
  then show ?case by simp
next
  case (Cons r rs)
  from Cons.prems(3) obtain hs hss' where hss: "hss = hs # hss'"
    and hr: "map (\<lambda>x. heap w ! x) r = map hit_dict hs"
    and rest: "list_all2 (\<lambda>r hs. map (\<lambda>x. heap w ! x) r = map hit_dict hs) rs hss'"
    by (cases hss) auto
  from Cons.prems(1) have dr: "distinct r" and drs: "distinct (concat rs)"
    and disj: "set r \<inter> set (concat rs) = {}" by simp_all
  from Cons.prems(2) have rlt: "\<forall>x\<in>set r. x < length (heap w)" by simp
  from Cons.prems(4) hss have hlt: "\<forall>p\<in>set hs. fst p < length documents" by simp
  from fixup_row_hits [OF dr rlt hr hlt, of rd rt]
  obtain w1 where row: "fixup_row documents rd rt r w = (Inr (), w1)"
    and len1: "length (heap w1) = length (heap w)"
    and enc1: "encode_calls w1 = encode_calls w"
    and frame1: "\<forall>y. y \<notin> set r \<longrightarrow> heap w1 ! y = heap w ! y"
    and ok1: "row_ok (heap w1) r hs"
    by blast
  have p2: "\<forall>r\<in>set rs. \<forall>x\<in>set r. x < length (heap w1)"
    using Cons.prems(2) len1 by simp
  have p3: "list_all2 (\<lambda>r hs. map (\<lambda>x. heap w1 ! x) r = map hit_dict hs) rs hss'"
  proof -
    have "\<And>r' hs'. r' \<in> set rs \<Longrightarrow> map (\<lambda>x. heap w ! x) r' = map hit_dict hs'
            \<Longrightarrow> map (\<lambda>x. heap w1 ! x) r' = map hit_dict hs'"
    proof -
      fix r' hs'
      assume r': "r' \<in> set rs" and m: "map (\<lambda>x. heap w ! x) r' = map hit_dict hs'"
      have "\<forall>x\<in>set r'. x \<notin> set r" using disj r' by auto
      then have "map (\<lambda>x. heap w1 ! x) r' = map (\<lambda>x. heap w ! x) r'"
        using frame1 by (intro map_cong) auto
      with m show "map (\<lambda>x. heap w1 ! x) r' = map hit_dict hs'" by simp
    qed
    note step = this
    from rest have l: "length rs = length hss'"
      and n: "\<forall>i<length rs. map (\<lambda>x. heap w ! x) (rs ! i) = map hit_dict (hss' ! i)"
      by (simp_all add: list_all2_conv_all_nth)
    have "\<forall>i<length rs. map (\<lambda>x. heap w1 ! x) (rs ! i) = map hit_dict (hss' ! i)"
      using n step nth_mem by blast
    with l show ?thesis by (simp add: list_all2_conv_all_nth)
  qed
  have p4: "\<forall>hs\<in>set hss'. \<forall>p\<in>set hs. fst p < length documents"
    using Cons.prems(4) hss by simp
  from Cons.IH [OF drs p2 p3 p4]
  obtain w' where rows: "fixup_rows documents rd rt rs w1 = (Inr (), w')"
    and len: "length (heap w') = length (heap w1)"
    and enc: "encode_calls w' = encode_calls w1"
    and frame: "\<forall>y. y \<notin> set (concat rs) \<longrightarrow> heap w' ! y = heap w1 ! y"
    and ok: "list_all2 (row_ok (heap w')) rs hss'"
    by blast
  have "\<forall>x\<in>set r. heap w' ! x = heap w1 ! x" using frame disj by auto
  with ok1 have "row_ok (heap w') r hs"
    using row_ok_cong [of r "heap w'" "heap w1" hs] by blast
  with ok hss have ok': "list_all2 (row_ok (heap w')) (r # rs) hss" by simp
  have fr': "\<forall>y. y \<notin> set (concat (r # rs)) \<longrightarrow> heap w' ! y = heap w ! y"
    using frame frame1 by simp
  from row rows have "fixup_rows documents rd rt (r # rs) w = (Inr (), w')" by simp
  with len len1 enc enc1 fr' ok' show ?case by simp
qed

lemma collect_query_results:
  assumes "list_all2 (row_ok h) rs hss" and "n0 + length rs \<le> length queries"
  shows "\<exists>results. collect (map (query_result queries rq h) (enumerate n0 rs)) = Inr results
            \<and> list_all2 (\<lambda>res hs. map rs_score (rq_scores res) = map snd hs
                   \<and> map rs_index (rq_scores res) = map (\<lambda>p. int (fst p)) hs) results hss"
  using assms
proof (induction rs arbitrary: n0 hss)
  case Nil
  then show ?case by simp
next
  case (Cons r rs)
  from Cons.prems(1) obtain hs hss' where hss: "hss = hs # hss'"
    and ok: "row_ok h r hs" and rest: "list_all2 (row_ok h) rs hss'"
    by (cases hss) auto
  from ok obtain scs where scs: "collect (map (\<lambda>x. RerankScore_of (h ! x)) r) = Inr scs"
    "map rs_score scs = map snd hs" "map rs_index scs = map (\<lambda>p. int (fst p)) hs"
    by (auto simp: row_ok_def)
  from Cons.prems(2) have n0: "n0 < length queries" and n1: "Suc n0 + length rs \<le> length queries"
    by simp_all
  from n0 have aq: "add_query queries rq n0 = Inr (if rq then Some (queries ! n0) else None)"
    by (simp add: add_query_def py_index_def)
  from aq scs have qr: "query_result queries rq h (n0, r)
      = Inr \<lparr>rq_query = (if rq then Some (queries ! n0) else None), rq_scores = scs\<rparr>"
    by (simp add: query_result_def)
  from Cons.IH [OF rest n1]
  obtain results where res: "collect (map (query_result queries rq h) (enumerate (Suc n0) rs)) = Inr results"
    "list_all2 (\<lambda>res hs. map rs_score (rq_scores res) = map snd hs
        \<and> map rs_index (rq_scores res) = map (\<lambda>p. int (fst p)) hs) results hss'"
    by blast
  from qr res scs hss show ?case by simp
qed

lemma ranked_row:
  assumes sc: "map rs_score scs = map snd (ranked sf k corpus q)"
      and ix: "map rs_index scs = map (\<lambda>p. int (fst p)) (ranked sf k corpus q)"
  shows "length scs = min (nat k) (length corpus)"
    and "sorted_wrt (\<ge>) (map rs_score scs)"
    and "distinct (map rs_index scs)"
    and "\<forall>s\<in>set scs. 0 \<le> rs_index s \<and> rs_index s < int (length corpus)
            \<and> rs_score s = sf q (corpus ! nat (rs_index s))"
    and "length corpus \<le> nat k \<Longrightarrow> rs_index ` set scs = int ` {0..<length corpus}"
    and "\<forall>j<length corpus. int j \<notin> rs_index ` set scs
            \<longrightarrow> (\<forall>s\<in>set scs. sf q (corpus ! j) \<le> rs_score s)"
proof -
  define hs where "hs = ranked sf k corpus q"
  have len: "length scs = length hs"
    using sc unfolding hs_def by (metis length_map)
  then show "length scs = min (nat k) (length corpus)"
    by (simp add: hs_def length_ranked)
  show "sorted_wrt (\<ge>) (map rs_score scs)"
    by (simp only: sc ranked_sorted)
  have "map rs_index scs = map int (map fst hs)"
    by (simp add: ix hs_def)
  moreover have "distinct (map int (map fst hs))"
  proof -
    have "distinct (map fst hs)" unfolding hs_def by (rule ranked_fst_distinct)
    moreover have "inj_on int (set (map fst hs))" by (rule inj_onI) simp
    ultimately show ?thesis by (simp only: distinct_map)
  qed
  ultimately show "distinct (map rs_index scs)" by simp
  have img: "rs_index ` set scs = int ` fst ` set hs"
  proof -
    have "rs_index ` set scs = set (map rs_index scs)" by simp
    also have "\<dots> = set (map (\<lambda>p. int (fst p)) hs)" by (simp only: ix hs_def)
    also have "\<dots> = int ` fst ` set hs" by auto
    finally show ?thesis .
  qed
  have pair: "\<exists>p\<in>set hs. rs_index s = int (fst p) \<and> rs_score s = snd p" if "s \<in> set scs" for s
  proof -
    from that obtain n where n: "n < length scs" "s = scs ! n"
      by (auto simp: in_set_conv_nth)
    from n have "rs_score s = map rs_score scs ! n" "rs_index s = map rs_index scs ! n"
      by simp_all
    with n len have "rs_score s = snd (hs ! n)" "rs_index s = int (fst (hs ! n))"
      by (simp_all add: sc ix hs_def [symmetric])
    moreover from n len have "hs ! n \<in> set hs" by simp
    ultimately show ?thesis by blast
  qed
  show "\<forall>s\<in>set scs. 0 \<le> rs_index s \<and> rs_index s < int (length corpus)
            \<and> rs_score s = sf q (corpus ! nat (rs_index s))"
  proof
    fix s
    assume "s \<in> set scs"
    from pair [OF this] obtain p where p: "p \<in> set hs" "rs_index s = int (fst p)" "rs_score s = snd p"
      by blast
    from p(1) have "fst p < length corpus" "snd p = sf q (corpus ! fst p)"
      unfolding hs_def by (rule ranked_index, rule ranked_score)
    with p show "0 \<le> rs_index s \<and> rs_index s < int (length corpus)
            \<and> rs_score s = sf q (corpus ! nat (rs_index s))"
      by simp
  qed
  show "rs_index ` set scs = int ` {0..<length corpus}" if "length corpus \<le> nat k"
    using ranked_fst_all [OF that, of sf q] by (simp only: img hs_def)
  show "\<forall>j<length corpus. int j \<notin> rs_index ` set scs
            \<longrightarrow> (\<forall>s\<in>set scs. sf q (corpus ! j) \<le> rs_score s)"
  proof (intro allI impI ballI)
    fix j s
    assume j: "j < length corpus" and n: "int j \<notin> rs_index ` set scs" and s: "s \<in> set scs"
    from n have "j \<notin> fst ` set hs" by (auto simp: img)
    moreover from pair [OF s] obtain p where p: "p \<in> set hs" "rs_score s = snd p" by blast
    ultimately show "sf q (corpus ! j) \<le> rs_score s"
      using ranked_top [of p sf k corpus q j] j by (simp add: hs_def)
  qed
qed

lemma run_rerank_queries_ranked:
  assumes q: "queries \<noteq> []" and d: "documents \<noteq> []"
      and dl: "\<forall>a\<in>set documents. tokenizer m (get_text (heap w) (heap w ! a)) \<le> max_seq_length m"
      and ql: "\<forall>t\<in>set queries. tokenizer m (PStr t) \<le> max_seq_length m"
  shows "\<exists>results w'.
           run_rerank_queries u m (Is queries) (Is documents) top_n rd rq rt w
             = (Inr (RerankPrediction results), w')
           \<and> list_all2 (\<lambda>res hs. map rs_score (rq_scores res) = map snd hs
                  \<and> map rs_index (rq_scores res) = map (\<lambda>p. int (fst p)) hs)
               results
               (map (ranked (dot u)
                       (case top_n of None \<Rightarrow> int (length documents)
                        | Some n \<Rightarrow> if n < 1 then int (length documents) else n)
                       (map (\<lambda>a. normalize u (encode m (get_text (heap w) (heap w ! a)))) documents))
                  (map (\<lambda>t. normalize u (encode m (PStr t))) queries))"
proof -
  define k where "k = (case top_n of None \<Rightarrow> int (length documents)
                       | Some n \<Rightarrow> if n < 1 then int (length documents) else n)"
  define doc_texts where "doc_texts = map (\<lambda>srd. get_text (heap w) (heap w ! srd)) documents"
  define w2 where "w2 = snd (model_encode_batch m (map PStr queries) (snd (model_encode_batch m doc_texts w)))"
  define de where "de = normalize_embeddings u (fst (model_encode_batch m doc_texts w))"
  define qe where "qe = normalize_embeddings u
      (fst (model_encode_batch m (map PStr queries) (snd (model_encode_batch m doc_texts w))))"
  have lde: "length de = length documents"
    by (simp add: de_def doc_texts_def normalize_embeddings_def model_encode_batch_def)
  have lqe: "length qe = length queries"
    by (simp add: qe_def normalize_embeddings_def model_encode_batch_def)
  have de: "de = map (\<lambda>a. normalize u (encode m (get_text (heap w) (heap w ! a)))) documents"
    by (simp add: de_def doc_texts_def normalize_embeddings_def model_encode_batch_def comp_def)
  have qe: "qe = map (\<lambda>t. normalize u (encode m (PStr t))) queries"
    by (simp add: qe_def normalize_embeddings_def model_encode_batch_def comp_def)
  obtain res w3 where s: "semantic_search (dot u) k de qe w2 = (res, w3)"
    by (cases "semantic_search (dot u) k de qe w2")
  define hss where "hss = map (ranked (dot u) k de) qe"
  define dss where "dss = map (search_hits (dot u) k de) qe"
  have dss_hss: "dss = map (map hit_dict) hss"
    by (simp add: dss_def hss_def search_hits_ranked)
  from semantic_search_shape [OF s]
  have h3: "heap w3 = heap w2 @ concat dss"
    and res: "res = ranges (length (heap w2)) (map length dss)"
    by (simp_all add: dss_def comp_def)
  have lres: "length res = length queries"
  proof -
    have "length res = length hss"
      using ranges_content [of "heap w2" dss] res dss_hss
      by (auto dest: list_all2_lengthD)
    then show ?thesis by (simp add: hss_def lqe)
  qed
  have cres: "concat res = [length (heap w2)..<length (heap w2) + sum_list (map length dss)]"
    by (simp add: res concat_ranges)
  have a1: "distinct (concat res)" by (simp add: cres)
  have a2: "\<forall>r\<in>set res. \<forall>x\<in>set r. x < length (heap w3)"
  proof (intro ballI)
    fix r x
    assume "r \<in> set res" "x \<in> set r"
    then have "x \<in> set (concat res)" by auto
    then show "x < length (heap w3)" by (simp add: cres h3 length_concat)
  qed
  have a3: "list_all2 (\<lambda>r hs. map (\<lambda>x. heap w3 ! x) r = map hit_dict hs) res hss"
    using ranges_content [of "heap w2" dss]
    by (simp add: res h3 dss_hss list_all2_map2 list_all2_map1)
  have a4: "\<forall>hs\<in>set hss. \<forall>p\<in>set hs. fst p < length documents"
    using ranked_index [of _ "dot u" k de] lde by (auto simp: hss_def)
  from fixup_rows_hits [OF a1 a2 a3 a4, of rd rt]
  obtain w4 where f: "fixup_rows documents rd rt res w3 = (Inr (), w4)"
    and ok: "list_all2 (row_ok (heap w4)) res hss"
    by blast
  from collect_query_results [OF ok, of 0 queries rq] lres
  obtain results where c: "collect (map (query_result queries rq (heap w4)) (enumerate 0 res)) = Inr results"
    and rs: "list_all2 (\<lambda>res hs. map rs_score (rq_scores res) = map snd hs
                \<and> map rs_index (rq_scores res) = map (\<lambda>p. int (fst p)) hs) results hss"
    by auto
  have dl': "\<forall>t\<in>set doc_texts. tokenizer m t \<le> max_seq_length m"
    using dl by (simp add: doc_texts_def)
  have run: "run_rerank_queries u m (Is queries) (Is documents) top_n rd rq rt w
      = (Inr (RerankPrediction results), w4)"
    using q d dl' ql s f c
    by (simp add: run_rerank_queries_def type_check_def Let_def split_beta
          prevent_truncation_each_iff
          k_def [symmetric] doc_texts_def [symmetric] w2_def [symmetric]
          de_def [symmetric] qe_def [symmetric])
  from rs have "list_all2 (\<lambda>res hs. map rs_score (rq_scores res) = map snd hs
                \<and> map rs_index (rq_scores res) = map (\<lambda>p. int (fst p)) hs) results
      (map (ranked (dot u)
              (case top_n of None \<Rightarrow> int (length documents)
               | Some n \<Rightarrow> if n < 1 then int (length documents) else n)
              (map (\<lambda>a. normalize u (encode m (get_text (heap w) (heap w ! a)))) documents))
         (map (\<lambda>t. normalize u (encode m (PStr t))) queries))"
    by (simp only: hss_def k_def de qe)
  with run show ?thesis by blast
qed

subsection \<open>Reranking the example records\<close>

lemma example_doc_texts:
  "map (\<lambda>srd. get_text (heap example_world) (heap example_world ! srd)) [0, 1, 2]
     = [PStr ''ab'', PStr ''abcd'', PStr '''']"
  by (simp add: example_world_def get_text_def py_or_def dict_get_def dict_get_default_def)

lemma example_hits:
  "search_hits (dot example_util) 3 [2, 4, 0] 1
     = [[(''corpus_id'', PInt 1), (''score'', PFloat 4)],
        [(''corpus_id'', PInt 0), (''score'', PFloat 2)],
        [(''corpus_id'', PInt 2), (''score'', PFloat 0)]]"
  by (simp add: search_hits_def example_util_def upt_rec numeral_3_eq_3)

lemma example_addresses: "[3..<6] = [3, 4, 5::nat]"
  by (simp add: upt_rec)

lemma example_search:
  "semantic_search (dot example_util) 3 [2, 4, 0] [1]
     \<lparr>heap = heap example_world,
      encode_calls = [EncodeBatch [PStr ''ab'', PStr ''abcd'', PStr ''''], EncodeBatch [PStr ''a'']]\<rparr>
     = ([[3, 4, 5]], example_found)"
  by (simp add: example_hits alloc_dicts_def example_world_def example_found_def
        example_addresses)

lemma example_fixup_rows:
  "fixup_rows [0, 1, 2] True True [[3, 4, 5]] example_found = (Inr (), example_fixed)"
  by (simp add: fixup_def dict_pop_def dict_set_def attach_document_def attach_text_def
        py_index_def example_found_def example_fixed_def get_text_def py_or_def dict_get_def
        dict_get_default_def)

lemma example_collect:
  "collect (map (query_result [''a''] True (heap example_fixed)) (enumerate 0 [[3, 4, 5]]))
     = Inr [\<lparr>rq_query = Some ''a'', rq_scores = example_scores\<rparr>]"
  by (simp add: query_result_def add_query_def py_index_def RerankScore_of_def
        example_fixed_def example_scores_def)

lemma example_rerank:
  assumes "top_n = None \<or> top_n = Some 0 \<or> top_n = Some 3"
  shows "run_rerank_queries example_util example_model (Is [''a'']) (Is [0, 1, 2]) top_n
           True True True example_world
         = (Inr (RerankPrediction [\<lparr>rq_query = Some ''a'', rq_scores = example_scores\<rparr>]),
            example_fixed)"
proof -
  have e1: "model_encode_batch example_model [PStr ''ab'', PStr ''abcd'', PStr ''''] example_world
      = ([2, 4, 0], example_world\<lparr>encode_calls := [EncodeBatch [PStr ''ab'', PStr ''abcd'', PStr '''']]\<rparr>)"
    by (simp add: model_encode_batch_def example_model_def example_world_def)
  have e2: "model_encode_batch example_model [PStr ''a'']
        (example_world\<lparr>encode_calls := [EncodeBatch [PStr ''ab'', PStr ''abcd'', PStr '''']]\<rparr>)
      = ([1], \<lparr>heap = heap example_world,
          encode_calls = [EncodeBatch [PStr ''ab'', PStr ''abcd'', PStr ''''], EncodeBatch [PStr ''a'']]\<rparr>)"
    by (simp add: model_encode_batch_def example_model_def example_world_def)
  have n: "normalize_embeddings example_util [2, 4, 0] = [2, 4, 0]"
      "normalize_embeddings example_util [1] = [1]"
    by (simp_all add: normalize_embeddings_def example_util_def)
  have en: "enumerate 0 [[3, 4, 5::nat]] = [(0, [3, 4, 5])]" by simp
  have qs: "map PStr [''a''] = [PStr ''a'']" by simp
  have g: "prevent_truncation_each example_model [PStr ''ab'', PStr ''abcd'', PStr ''''] = Inr ()"
      "prevent_truncation_each example_model [PStr ''a''] = Inr ()"
    by (simp_all add: prevent_truncation_each_iff example_model_def)
  have k: "(case top_n of None \<Rightarrow> int (length [0, 1, 2::nat])
            | Some n \<Rightarrow> if n < 1 then int (length [0, 1, 2::nat]) else n) = 3"
    using assms by auto
  show ?thesis
    unfolding run_rerank_queries_def type_check_def
    by (simp add: k example_doc_texts g e1 e2 n example_search example_fixup_rows
          example_collect [unfolded en] Let_def qs
        del: One_nat_def semantic_search.simps fixup_rows.simps collect.simps
          prevent_truncation_each.simps list.map length_Cons)
qed

subsection \<open>The compilation step never fails \<^verbatim>\<open>_optimize\<close>\<close>

lemma optimize_compile_caught:
  "\<not> IPEX_OPTIMIZE f \<Longrightarrow> \<exists>m'. fst (optimize f x model lg) = Inr m'"
  by (simp add: optimize_def split: sum.splits)

section \<open>The truncation guard on every operation\<close>

text \<open>
  Claim C1 as stated fails: with a query that exceeds the limit and an empty document
  list, \<^verbatim>\<open>run_rerank_queries\<close> returns the empty result set and raises nothing, because
  the check for empty input comes before the guard.
\<close>

theorem truncation_guard_counterexample:
  "too_long example_model (PStr ''abcdef'')
   \<and> run_rerank_queries example_util example_model (Is [''abcdef'']) (Is []) None True True True
       example_world = (Inr (RerankPrediction []), example_world)"
  by (simp add: too_long_def example_model_def run_rerank_queries_def type_check_def)

text \<open>
  Claim C1, amended. For every operation that takes text and every text argument of it:
  if the text's token count exceeds the model's maximum sequence length, the value error
  of the guard is raised and the embedding function is not invoked (the world, with its
  log of encoder calls, is unchanged), provided that, for the two rerank operations,
  neither the queries nor the documents are empty. If every text is within the limit,
  the guard raises nothing.
\<close>

theorem truncation_guard:
  "(too_long m (PStr t) \<longrightarrow>
       run_embedding m (Is t) w = (Inl truncation_error, w)
     \<and> run_embeddings m (BareStr t) w = (Inl truncation_error, w)
     \<and> (t \<in> set ts \<longrightarrow> run_embeddings m (TextList ts) w = (Inl truncation_error, w))
     \<and> run_sentence_similarity u m t cs w = (Inl truncation_error, w)
     \<and> (t \<in> set cs \<longrightarrow> run_sentence_similarity u m src cs w = (Inl truncation_error, w))
     \<and> (t \<in> set srcs \<or> t \<in> set cs \<longrightarrow>
          run_sentence_similarities u m srcs cs w = (Inl truncation_error, w))
     \<and> (t \<in> set queries \<and> documents \<noteq> [] \<longrightarrow>
          run_rerank_queries u m (Is queries) (Is documents) top_n rd rq rt w
            = (Inl truncation_error, w))
     \<and> (documents \<noteq> [] \<longrightarrow>
          run_rerank_query u m (Is t) (Is documents) top_n rd rq rt w
            = (Inl truncation_error, w)))
   \<and> ((\<exists>a\<in>set documents. too_long m (get_text (heap w) (heap w ! a))) \<longrightarrow>
         (queries \<noteq> [] \<longrightarrow>
            run_rerank_queries u m (Is queries) (Is documents) top_n rd rq rt w
              = (Inl truncation_error, w))
       \<and> run_rerank_query u m (Is q) (Is documents) top_n rd rq rt w
            = (Inl truncation_error, w))
   \<and> (\<not> too_long m v \<longrightarrow> prevent_truncation m v = Inr ())
   \<and> ((\<forall>v\<in>set vs. \<not> too_long m v) \<longrightarrow> prevent_truncation_each m vs = Inr ())"
proof -
  have within: "\<not> too_long m v \<longrightarrow> prevent_truncation m v = Inr ()"
    by (simp add: prevent_truncation_within)
  have within_each: "(\<forall>v\<in>set vs. \<not> too_long m v) \<longrightarrow> prevent_truncation_each m vs = Inr ()"
    by (simp add: prevent_truncation_each_within)
  have docs: "(\<exists>a\<in>set documents. too_long m (get_text (heap w) (heap w ! a))) \<longrightarrow>
         (queries \<noteq> [] \<longrightarrow>
            run_rerank_queries u m (Is queries) (Is documents) top_n rd rq rt w
              = (Inl truncation_error, w))
       \<and> run_rerank_query u m (Is q) (Is documents) top_n rd rq rt w
            = (Inl truncation_error, w)"
  proof
    assume ex: "\<exists>a\<in>set documents. too_long m (get_text (heap w) (heap w ! a))"
    then have ne: "documents \<noteq> []" by auto
    from run_rerank_queries_too_long [of queries documents m w u top_n rd rq rt]
      run_rerank_query_too_long [of documents m q w u top_n rd rq rt] ex ne
    show "(queries \<noteq> [] \<longrightarrow>
            run_rerank_queries u m (Is queries) (Is documents) top_n rd rq rt w
              = (Inl truncation_error, w))
       \<and> run_rerank_query u m (Is q) (Is documents) top_n rd rq rt w
            = (Inl truncation_error, w)"
      by blast
  qed
  have texts: "too_long m (PStr t) \<longrightarrow>
       run_embedding m (Is t) w = (Inl truncation_error, w)
     \<and> run_embeddings m (BareStr t) w = (Inl truncation_error, w)
     \<and> (t \<in> set ts \<longrightarrow> run_embeddings m (TextList ts) w = (Inl truncation_error, w))
     \<and> run_sentence_similarity u m t cs w = (Inl truncation_error, w)
     \<and> (t \<in> set cs \<longrightarrow> run_sentence_similarity u m src cs w = (Inl truncation_error, w))
     \<and> (t \<in> set srcs \<or> t \<in> set cs \<longrightarrow>
          run_sentence_similarities u m srcs cs w = (Inl truncation_error, w))
     \<and> (t \<in> set queries \<and> documents \<noteq> [] \<longrightarrow>
          run_rerank_queries u m (Is queries) (Is documents) top_n rd rq rt w
            = (Inl truncation_error, w))
     \<and> (documents \<noteq> [] \<longrightarrow>
          run_rerank_query u m (Is t) (Is documents) top_n rd rq rt w
            = (Inl truncation_error, w))"
  proof
    assume tl: "too_long m (PStr t)"
    have q: "t \<in> set queries \<and> documents \<noteq> [] \<longrightarrow>
          run_rerank_queries u m (Is queries) (Is documents) top_n rd rq rt w
            = (Inl truncation_error, w)"
    proof
      assume h: "t \<in> set queries \<and> documents \<noteq> []"
      then have "queries \<noteq> []" by auto
      with h tl show "run_rerank_queries u m (Is queries) (Is documents) top_n rd rq rt w
            = (Inl truncation_error, w)"
        by (intro run_rerank_queries_too_long) auto
    qed
    from tl q show "run_embedding m (Is t) w = (Inl truncation_error, w)
     \<and> run_embeddings m (BareStr t) w = (Inl truncation_error, w)
     \<and> (t \<in> set ts \<longrightarrow> run_embeddings m (TextList ts) w = (Inl truncation_error, w))
     \<and> run_sentence_similarity u m t cs w = (Inl truncation_error, w)
     \<and> (t \<in> set cs \<longrightarrow> run_sentence_similarity u m src cs w = (Inl truncation_error, w))
     \<and> (t \<in> set srcs \<or> t \<in> set cs \<longrightarrow>
          run_sentence_similarities u m srcs cs w = (Inl truncation_error, w))
     \<and> (t \<in> set queries \<and> documents \<noteq> [] \<longrightarrow>
          run_rerank_queries u m (Is queries) (Is documents) top_n rd rq rt w
            = (Inl truncation_error, w))
     \<and> (documents \<noteq> [] \<longrightarrow>
          run_rerank_query u m (Is t) (Is documents) top_n rd rq rt w
            = (Inl truncation_error, w))"
      by (simp add: run_embedding_too_long run_embeddings_bare_too_long
            run_embeddings_too_long run_sentence_similarity_too_long
            run_sentence_similarities_too_long run_rerank_query_too_long)
  qed
  from texts docs within within_each show ?thesis by blast
qed

theorem truncation_guard_witness:
  "too_long example_model (PStr ''abcdef'')
   \<and> run_embedding example_model (Is ''abcdef'') example_world
       = (Inl truncation_error, example_world)
   \<and> ''abcdef'' \<in> set [''a'', ''abcdef''] \<and> [0::nat] \<noteq> []
   \<and> run_rerank_queries example_util example_model (Is [''a'', ''abcdef'']) (Is [0])
         None True True True example_world
       = (Inl truncation_error, example_world)
   \<and> \<not> too_long example_model (PStr ''ab'')
   \<and> prevent_truncation example_model (PStr ''ab'') = Inr ()"
  using truncation_guard [where m = example_model and t = "''abcdef''" and w = example_world
      and queries = "[''a'', ''abcdef'']" and documents = "[0]" and v = "PStr ''ab''"
      and u = example_util and top_n = None and rd = True and rq = True and rt = True]
  by (simp add: too_long_def example_model_def)

section \<open>Optional optimizations during load\<close>

text \<open>
  Claim C2. An exception raised while applying an optional optimization during load is
  caught and logged, and load returns a handle without that optimization. The code does
  this for the compilation step only: with \<^verbatim>\<open>IPEX_OPTIMIZE\<close> set and \<^verbatim>\<open>ipex.optimize\<close>
  raising, the exception leaves \<^verbatim>\<open>load\<close>; with the same failing compilation and
  \<^verbatim>\<open>IPEX_OPTIMIZE\<close> unset, load returns a handle and logs the warning.
\<close>

theorem load_vendor_optimization_failure:
  "load \<lparr>IPEX_OPTIMIZE = True, USE_XPU = False, USE_MPS = False, PT2_COMPILE = True\<rparr>
      example_externals ''/m'' example_host
     = (Inl (LibraryError ''ipex.optimize''), example_host)
   \<and> load \<lparr>IPEX_OPTIMIZE = False, USE_XPU = False, USE_MPS = False, PT2_COMPILE = True\<rparr>
      example_externals ''/m'' example_host
     = (Inr (TextEmbedding ''/m/artifacts''),
        example_host\<lparr>warnings :=
          [''PT2_COMPILE enabled in env, but continuing without torch.compile()'']\<rparr>)"
  by (simp add: load_def ModuleConfig_load_def path_join_def example_host_def example_fs_def
        example_externals_def value_check_def dir_check_def optimize_def ARTIFACTS_PATH_KEY_def
        Let_def)

section \<open>Reranking: number and order of the results\<close>

text \<open>
  Claim C3 as stated fails: with \<open>top_n = 0\<close> and three documents the result of the query
  holds three scores, which is more than \<open>top_n\<close>, because a \<open>top_n\<close> below one is replaced
  by the number of documents.
\<close>

theorem rerank_top_n_counterexample:
  "[''a''] \<noteq> [] \<and> [0, 1, 2::nat] \<noteq> []
   \<and> run_rerank_queries example_util example_model (Is [''a'']) (Is [0, 1, 2]) (Some 0)
         True True True example_world
       = (Inr (RerankPrediction [\<lparr>rq_query = Some ''a'', rq_scores = example_scores\<rparr>]),
          example_fixed)
   \<and> length example_scores = 3
   \<and> \<not> int (length example_scores) \<le> 0"
proof -
  have "run_rerank_queries example_util example_model (Is [''a'']) (Is [0, 1, 2]) (Some 0)
         True True True example_world
       = (Inr (RerankPrediction [\<lparr>rq_query = Some ''a'', rq_scores = example_scores\<rparr>]),
          example_fixed)"
    by (rule example_rerank) simp
  moreover have "length example_scores = 3"
    by (simp add: example_scores_def)
  ultimately show ?thesis by simp
qed

text \<open>
  Claim C3, amended. For non-empty queries and documents whose texts are all within the
  limit, \<^verbatim>\<open>run_rerank_queries\<close> returns one result per query. With \<open>top_n\<close> unset or below
  one each result has one score for every document, with a positive \<open>top_n\<close> it has
  exactly \<open>min top_n (number of documents)\<close> scores. Every score list is in non-increasing
  order of score and no longer than the document list, and no longer than \<open>top_n\<close> when
  \<open>top_n\<close> is positive. The scores of a result refer to distinct positions of the document
  list, to every position when \<open>top_n\<close> is unset, below one or at least the number of
  documents; each score is the score of the document at its position for the query of
  the result, and no document left out scores higher than a document retained.
\<close>

theorem rerank_top_n:
  assumes q: "queries \<noteq> []" and d: "documents \<noteq> []"
      and dl: "\<forall>a\<in>set documents. tokenizer m (get_text (heap w) (heap w ! a)) \<le> max_seq_length m"
      and ql: "\<forall>t\<in>set queries. tokenizer m (PStr t) \<le> max_seq_length m"
  shows "\<exists>results w'.
           run_rerank_queries u m (Is queries) (Is documents) top_n rd rq rt w
             = (Inr (RerankPrediction results), w')
           \<and> length results = length queries
           \<and> (\<forall>r\<in>set results.
                 length (rq_scores r)
                   = (case top_n of
                        None \<Rightarrow> length documents
                      | Some n \<Rightarrow> if n < 1 then length documents
                                  else min (nat n) (length documents))
                 \<and> length (rq_scores r) \<le> length documents
                 \<and> (\<forall>n. top_n = Some n \<and> 1 \<le> n \<longrightarrow> length (rq_scores r) \<le> nat n)
                 \<and> sorted_wrt (\<ge>) (map rs_score (rq_scores r))
                 \<and> distinct (map rs_index (rq_scores r))
                 \<and> (\<forall>s\<in>set (rq_scores r). 0 \<le> rs_index s \<and> rs_index s < int (length documents))
                 \<and> ((\<forall>n. top_n = Some n \<longrightarrow> n < 1 \<or> int (length documents) \<le> n)
                      \<longrightarrow> rs_index ` set (rq_scores r) = int ` {0..<length documents}))
           \<and> (\<forall>i<length queries.
                 (\<forall>s\<in>set (rq_scores (results ! i)).
                     rs_score s = doc_score u m (heap w) (queries ! i) (documents ! nat (rs_index s)))
                 \<and> (\<forall>j<length documents.
                       int j \<notin> rs_index ` set (rq_scores (results ! i))
                       \<longrightarrow> (\<forall>s\<in>set (rq_scores (results ! i)).
                              doc_score u m (heap w) (queries ! i) (documents ! j) \<le> rs_score s)))"
proof -
  define k where "k = (case top_n of None \<Rightarrow> int (length documents)
                       | Some n \<Rightarrow> if n < 1 then int (length documents) else n)"
  define de where "de = map (\<lambda>a. normalize u (encode m (get_text (heap w) (heap w ! a)))) documents"
  define qe where "qe = map (\<lambda>t. normalize u (encode m (PStr t))) queries"
  from run_rerank_queries_ranked [OF q d dl ql, of u top_n rd rq rt]
  obtain results w' where run: "run_rerank_queries u m (Is queries) (Is documents) top_n rd rq rt w
        = (Inr (RerankPrediction results), w')"
    and rs: "list_all2 (\<lambda>res hs. map rs_score (rq_scores res) = map snd hs
                \<and> map rs_index (rq_scores res) = map (\<lambda>p. int (fst p)) hs) results
             (map (ranked (dot u) k de) qe)"
    unfolding k_def de_def qe_def by blast
  have lde: "length de = length documents" by (simp add: de_def)
  have lqe: "length qe = length queries" by (simp add: qe_def)
  from rs have len: "length results = length queries"
    by (auto dest: list_all2_lengthD simp: lqe)
  have row: "map rs_score (rq_scores (results ! i)) = map snd (ranked (dot u) k de (qe ! i))"
      "map rs_index (rq_scores (results ! i)) = map (\<lambda>p. int (fst p)) (ranked (dot u) k de (qe ! i))"
    if "i < length queries" for i
    using rs that lqe by (simp_all add: list_all2_conv_all_nth)
  have sc: "dot u (qe ! i) (de ! j) = doc_score u m (heap w) (queries ! i) (documents ! j)"
    if "i < length queries" "j < length documents" for i j
    using that by (simp add: qe_def de_def doc_score_def)
  have kk: "min (nat k) (length documents)
      = (case top_n of None \<Rightarrow> length documents
         | Some n \<Rightarrow> if n < 1 then length documents else min (nat n) (length documents))"
    by (simp add: k_def split: option.splits)
  have kb: "\<forall>n. top_n = Some n \<and> 1 \<le> n \<longrightarrow> min (nat k) (length documents) \<le> nat n"
    by (simp add: k_def)
  have kc: "length documents \<le> nat k"
    if "\<forall>n. top_n = Some n \<longrightarrow> n < 1 \<or> int (length documents) \<le> n"
    using that by (auto simp: k_def split: option.splits)
  have each: "\<forall>r\<in>set results.
        length (rq_scores r)
          = (case top_n of None \<Rightarrow> length documents
             | Some n \<Rightarrow> if n < 1 then length documents else min (nat n) (length documents))
        \<and> length (rq_scores r) \<le> length documents
        \<and> (\<forall>n. top_n = Some n \<and> 1 \<le> n \<longrightarrow> length (rq_scores r) \<le> nat n)
        \<and> sorted_wrt (\<ge>) (map rs_score (rq_scores r))
        \<and> distinct (map rs_index (rq_scores r))
        \<and> (\<forall>s\<in>set (rq_scores r). 0 \<le> rs_index s \<and> rs_index s < int (length documents))
        \<and> ((\<forall>n. top_n = Some n \<longrightarrow> n < 1 \<or> int (length documents) \<le> n)
             \<longrightarrow> rs_index ` set (rq_scores r) = int ` {0..<length documents})"
  proof
    fix r
    assume "r \<in> set results"
    then obtain i where i: "i < length queries" "r = results ! i"
      by (auto simp: in_set_conv_nth len)
    note rr = ranked_row [OF row [OF i(1)], folded i(2), unfolded lde]
    from rr(1) have l: "length (rq_scores r) = min (nat k) (length documents)" .
    have c1: "length (rq_scores r)
          = (case top_n of None \<Rightarrow> length documents
             | Some n \<Rightarrow> if n < 1 then length documents else min (nat n) (length documents))"
      by (simp only: l kk)
    have c2: "length (rq_scores r) \<le> length documents" by (simp add: l)
    have c3: "\<forall>n. top_n = Some n \<and> 1 \<le> n \<longrightarrow> length (rq_scores r) \<le> nat n"
      using kb by (simp only: l)
    have c6: "\<forall>s\<in>set (rq_scores r). 0 \<le> rs_index s \<and> rs_index s < int (length documents)"
      using rr(4) by blast
    have c7: "(\<forall>n. top_n = Some n \<longrightarrow> n < 1 \<or> int (length documents) \<le> n)
             \<longrightarrow> rs_index ` set (rq_scores r) = int ` {0..<length documents}"
      using rr(5) kc by blast
    from c1 c2 c3 rr(2) rr(3) c6 c7
    show "length (rq_scores r)
          = (case top_n of None \<Rightarrow> length documents
             | Some n \<Rightarrow> if n < 1 then length documents else min (nat n) (length documents))
        \<and> length (rq_scores r) \<le> length documents
        \<and> (\<forall>n. top_n = Some n \<and> 1 \<le> n \<longrightarrow> length (rq_scores r) \<le> nat n)
        \<and> sorted_wrt (\<ge>) (map rs_score (rq_scores r))
        \<and> distinct (map rs_index (rq_scores r))
        \<and> (\<forall>s\<in>set (rq_scores r). 0 \<le> rs_index s \<and> rs_index s < int (length documents))
        \<and> ((\<forall>n. top_n = Some n \<longrightarrow> n < 1 \<or> int (length documents) \<le> n)
             \<longrightarrow> rs_index ` set (rq_scores r) = int ` {0..<length documents})"
      by (intro conjI)
  qed
  have scores: "\<forall>i<length queries.
        (\<forall>s\<in>set (rq_scores (results ! i)).
            rs_score s = doc_score u m (heap w) (queries ! i) (documents ! nat (rs_index s)))
        \<and> (\<forall>j<length documents.
              int j \<notin> rs_index ` set (rq_scores (results ! i))
              \<longrightarrow> (\<forall>s\<in>set (rq_scores (results ! i)).
                     doc_score u m (heap w) (queries ! i) (documents ! j) \<le> rs_score s))"
  proof (intro allI impI conjI ballI)
    fix i s
    assume i: "i < length queries" and s: "s \<in> set (rq_scores (results ! i))"
    note rr = ranked_row [OF row [OF i], unfolded lde]
    from rr(4) s have "0 \<le> rs_index s" "rs_index s < int (length documents)"
        "rs_score s = dot u (qe ! i) (de ! nat (rs_index s))"
      by blast+
    then show "rs_score s = doc_score u m (heap w) (queries ! i) (documents ! nat (rs_index s))"
      using sc [OF i, of "nat (rs_index s)"] by simp
  next
    fix i j s
    assume i: "i < length queries" and j: "j < length documents"
      and n: "int j \<notin> rs_index ` set (rq_scores (results ! i))"
      and s: "s \<in> set (rq_scores (results ! i))"
    note rr = ranked_row [OF row [OF i], unfolded lde]
    from rr(6) j n s have "dot u (qe ! i) (de ! j) \<le> rs_score s" by blast
    then show "doc_score u m (heap w) (queries ! i) (documents ! j) \<le> rs_score s"
      by (simp only: sc [OF i j])
  qed
  from run len each scores show ?thesis by blast
qed

theorem rerank_top_n_witness:
  "[''a'', ''abc''] \<noteq> [] \<and> [0, 1, 2::nat] \<noteq> []
   \<and> list_all (\<lambda>a. tokenizer example_model (get_text (heap example_world) (heap example_world ! a))
                    \<le> max_seq_length example_model) [0, 1, 2]
   \<and> list_all (\<lambda>t. tokenizer example_model (PStr t) \<le> max_seq_length example_model)
         [''a'', ''abc'']
   \<and> (\<exists>results w'.
         run_rerank_queries example_util example_model (Is [''a'', ''abc'']) (Is [0, 1, 2])
           (Some 2) True True True example_world = (Inr (RerankPrediction results), w')
         \<and> length results = 2
         \<and> list_all (\<lambda>r. length (rq_scores r) = 2
                          \<and> sorted_wrt (\<ge>) (map rs_score (rq_scores r))
                          \<and> distinct (map rs_index (rq_scores r))
                          \<and> list_all (\<lambda>s. 0 \<le> rs_index s \<and> rs_index s < 3) (rq_scores r))
             results)
   \<and> (\<exists>results w'.
         run_rerank_queries example_util example_model (Is [''a'', ''abc'']) (Is [0, 1, 2])
           (Some 0) True True True example_world = (Inr (RerankPrediction results), w')
         \<and> length results = 2
         \<and> list_all (\<lambda>r. length (rq_scores r) = 3
                          \<and> sorted_wrt (\<ge>) (map rs_score (rq_scores r))
                          \<and> distinct (map rs_index (rq_scores r))
                          \<and> rs_index ` set (rq_scores r) = {0, 1, 2})
             results
         \<and> list_all (\<lambda>s. rs_score s
                            = doc_score example_util example_model (heap example_world) ''abc''
                                ([0, 1, 2] ! nat (rs_index s)))
             (rq_scores (results ! 1)))"
proof -
  have h1: "[''a'', ''abc''] \<noteq> []" and h2: "[0, 1, 2::nat] \<noteq> []" by simp_all
  have h3: "\<forall>a\<in>set [0, 1, 2].
         tokenizer example_model (get_text (heap example_world) (heap example_world ! a))
           \<le> max_seq_length example_model"
    by (simp add: example_model_def example_world_def get_text_def py_or_def dict_get_def
          dict_get_default_def)
  have h4: "\<forall>t\<in>set [''a'', ''abc'']. tokenizer example_model (PStr t) \<le> max_seq_length example_model"
    by (simp add: example_model_def)
  have all: "int ` {0..<length [0, 1, 2::nat]} = {0, 1, 2}"
    by (auto simp: numeral_3_eq_3 atLeastLessThanSuc)
  from rerank_top_n [OF h1 h2 h3 h4, of example_util "Some 2" True True True]
  obtain results w' where r: "run_rerank_queries example_util example_model (Is [''a'', ''abc''])
        (Is [0, 1, 2]) (Some 2) True True True example_world = (Inr (RerankPrediction results), w')"
    and l: "length results = length [''a'', ''abc'']"
    and e: "\<forall>r\<in>set results.
        length (rq_scores r) = min (nat 2) (length [0, 1, 2::nat])
        \<and> sorted_wrt (\<ge>) (map rs_score (rq_scores r))
        \<and> distinct (map rs_index (rq_scores r))
        \<and> (\<forall>s\<in>set (rq_scores r). 0 \<le> rs_index s \<and> rs_index s < int (length [0, 1, 2::nat]))"
    by auto
  from l have l2: "length results = 2" by simp
  from e have e2: "list_all (\<lambda>r. length (rq_scores r) = 2
        \<and> sorted_wrt (\<ge>) (map rs_score (rq_scores r))
        \<and> distinct (map rs_index (rq_scores r))
        \<and> list_all (\<lambda>s. 0 \<le> rs_index s \<and> rs_index s < 3) (rq_scores r)) results"
    by (simp add: list_all_iff)
  from r l2 e2 have p1: "\<exists>results w'.
         run_rerank_queries example_util example_model (Is [''a'', ''abc'']) (Is [0, 1, 2])
           (Some 2) True True True example_world = (Inr (RerankPrediction results), w')
         \<and> length results = 2
         \<and> list_all (\<lambda>r. length (rq_scores r) = 2
                          \<and> sorted_wrt (\<ge>) (map rs_score (rq_scores r))
                          \<and> distinct (map rs_index (rq_scores r))
                          \<and> list_all (\<lambda>s. 0 \<le> rs_index s \<and> rs_index s < 3) (rq_scores r))
             results"
    by blast
  from rerank_top_n [OF h1 h2 h3 h4, of example_util "Some 0" True True True]
  obtain results0 w0 where r0: "run_rerank_queries example_util example_model (Is [''a'', ''abc''])
        (Is [0, 1, 2]) (Some 0) True True True example_world = (Inr (RerankPrediction results0), w0)"
    and l0: "length results0 = length [''a'', ''abc'']"
    and e0: "\<forall>r\<in>set results0.
        length (rq_scores r) = length [0, 1, 2::nat]
        \<and> sorted_wrt (\<ge>) (map rs_score (rq_scores r))
        \<and> distinct (map rs_index (rq_scores r))
        \<and> rs_index ` set (rq_scores r) = int ` {0..<length [0, 1, 2::nat]}"
    and s0: "\<forall>i<length [''a'', ''abc''].
        \<forall>s\<in>set (rq_scores (results0 ! i)).
          rs_score s = doc_score example_util example_model (heap example_world)
            ([''a'', ''abc''] ! i) ([0, 1, 2] ! nat (rs_index s))"
    by auto
  from l0 have l02: "length results0 = 2" by simp
  from e0 have e02: "list_all (\<lambda>r. length (rq_scores r) = 3
        \<and> sorted_wrt (\<ge>) (map rs_score (rq_scores r))
        \<and> distinct (map rs_index (rq_scores r))
        \<and> rs_index ` set (rq_scores r) = {0, 1, 2}) results0"
    by (simp only: all) (simp add: list_all_iff)
  from s0 [rule_format, of 1] have s02: "list_all (\<lambda>s. rs_score s
        = doc_score example_util example_model (heap example_world) ''abc''
            ([0, 1, 2] ! nat (rs_index s))) (rq_scores (results0 ! 1))"
    by (simp add: list_all_iff)
  from r0 l02 e02 s02 have p2: "\<exists>results w'.
         run_rerank_queries example_util example_model (Is [''a'', ''abc'']) (Is [0, 1, 2])
           (Some 0) True True True example_world = (Inr (RerankPrediction results), w')
         \<and> length results = 2
         \<and> list_all (\<lambda>r. length (rq_scores r) = 3
                          \<and> sorted_wrt (\<ge>) (map rs_score (rq_scores r))
                          \<and> distinct (map rs_index (rq_scores r))
                          \<and> rs_index ` set (rq_scores r) = {0, 1, 2})
             results
         \<and> list_all (\<lambda>s. rs_score s
                            = doc_score example_util example_model (heap example_world) ''abc''
                                ([0, 1, 2] ! nat (rs_index s)))
             (rq_scores (results ! 1))"
    by blast
  from h1 h2 h3 h4 p1 p2 show ?thesis by (simp only: list_all_iff) blast
qed

section \<open>Reranking: empty input\<close>

text \<open>
  Claim C4. With an empty list of queries or an empty list of documents,
  \<^verbatim>\<open>run_rerank_queries\<close> returns the empty result set, raises nothing and does not invoke
  the embedding function (the world is unchanged). \<^verbatim>\<open>run_rerank_query\<close> with a string
  query, when the rerank of that one query yields no per-query result (as with no
  documents), returns one result with an empty score list and the query echoed exactly
  when \<open>return_query\<close> is set.
\<close>

theorem rerank_empty_input:
  "((queries = [] \<or> documents = []) \<longrightarrow>
      run_rerank_queries u m (Is queries) (Is documents) top_n rd rq rt w
        = (Inr (RerankPrediction []), w))
   \<and> (run_rerank_queries u m (Is [query]) docs top_n rd rq rt w = (Inr (RerankPrediction []), w')
        \<longrightarrow> run_rerank_query u m (Is query) docs top_n rd rq rt w
              = (Inr \<lparr>rq_query = (if rq then Some query else None), rq_scores = []\<rparr>, w'))
   \<and> run_rerank_query u m (Is query) (Is []) top_n rd rq rt w
        = (Inr \<lparr>rq_query = (if rq then Some query else None), rq_scores = []\<rparr>, w)"
  by (auto simp: run_rerank_queries_def run_rerank_query_def type_check_def)

theorem rerank_empty_input_witness:
  "(([]::string list) = [] \<or> [0::nat] = [])
   \<and> run_rerank_queries example_util example_model (Is []) (Is [0]) None True True True
         example_world = (Inr (RerankPrediction []), example_world)
   \<and> run_rerank_queries example_util example_model (Is [''abc'']) (Is []) None True True True
         example_world = (Inr (RerankPrediction []), example_world)
   \<and> run_rerank_query example_util example_model (Is ''abc'') (Is []) None True True True
         example_world = (Inr \<lparr>rq_query = Some ''abc'', rq_scores = []\<rparr>, example_world)"
  using rerank_empty_input [where queries = "[]" and documents = "[0]" and u = example_util
      and m = example_model and top_n = None and rd = True and rq = True and rt = True
      and w = example_world and query = "''abc''" and docs = "Is []" and w' = example_world]
  by (simp add: run_rerank_queries_def type_check_def)

section \<open>Text extraction from a document record\<close>

text \<open>
  Claim C5. For every document record, the text extracted by \<^verbatim>\<open>get_text\<close> is the value of
  its \<^verbatim>\<open>"text"\<close> field when that field is present and non-empty, else the value of its
  \<^verbatim>\<open>"_text"\<close> field when present, else the empty string. In particular
  \<^verbatim>\<open>{"text": "hello"}\<close> yields \<^verbatim>\<open>"hello"\<close>, \<^verbatim>\<open>{"_text": "fallback"}\<close> yields \<^verbatim>\<open>"fallback"\<close>,
  and a record with neither key yields the empty string.
\<close>

theorem get_text_fallback:
  "get_text h srd = spec_get_text h srd
   \<and> get_text h [(''text'', PStr ''hello'')] = PStr ''hello''
   \<and> get_text h [(''_text'', PStr ''fallback'')] = PStr ''fallback''
   \<and> (''text'' \<notin> fst ` set srd \<and> ''_text'' \<notin> fst ` set srd \<longrightarrow> get_text h srd = PStr '''')"
  by (simp add: get_text_refines) (simp add: spec_get_text_def)

theorem get_text_fallback_witness:
  "''text'' \<notin> fst ` set [(''title'', PStr ''x'')] \<and> ''_text'' \<notin> fst ` set [(''title'', PStr ''x'')]
   \<and> get_text [] [(''title'', PStr ''x'')] = PStr ''''"
  using get_text_fallback [of "[]" "[(''title'', PStr ''x'')]"]
  by (simp add: spec_get_text_def)

section \<open>Embedding a batch of texts\<close>

text \<open>
  Claim C6. For an ordered sequence of \<open>N\<close> texts all within the limit, \<^verbatim>\<open>run_embeddings\<close>
  returns exactly \<open>N\<close> vectors, the \<open>i\<close>-th being the embedding of the \<open>i\<close>-th text; given
  a bare string it returns what it returns for the one-element sequence holding that
  string.
\<close>

theorem run_embeddings_order:
  assumes "\<forall>t\<in>set ts. tokenizer m (PStr t) \<le> max_seq_length m"
  shows "(\<exists>vs w'. run_embeddings m (TextList ts) w = (Inr (ListOfVector1D vs), w')
            \<and> length vs = length ts
            \<and> (\<forall>i<length ts. vs ! i = from_embeddings (encode m (PStr (ts ! i)))))
         \<and> run_embeddings m (BareStr s) w = run_embeddings m (TextList [s]) w"
  using assms
  by (simp add: run_embeddings_def prevent_truncation_each_iff model_encode_batch_def)

theorem run_embeddings_order_witness:
  "list_all (\<lambda>t. tokenizer example_model (PStr t) \<le> max_seq_length example_model) [''ab'', ''c'']
   \<and> fst (run_embeddings example_model (TextList [''ab'', ''c'']) example_world)
       = Inr (ListOfVector1D [Vector1D 2, Vector1D 1])
   \<and> run_embeddings example_model (BareStr ''ab'') example_world
       = run_embeddings example_model (TextList [''ab'']) example_world"
  using run_embeddings_order [of "[''ab'', ''c'']" example_model example_world "''ab''"]
  by (simp add: example_model_def run_embeddings_def prevent_truncation_each_iff
        model_encode_batch_def from_embeddings_def)

section \<open>Similarity of a source sentence and its candidates\<close>

text \<open>
  Claim C7. For a source sentence and candidates \<open>c1, ..., cn\<close> all within the limit,
  \<^verbatim>\<open>run_sentence_similarity\<close> returns exactly \<open>n\<close> scores in candidate order, the \<open>i\<close>-th
  being the cosine similarity of the embedding of the source and the embedding of \<open>ci\<close>.
\<close>

theorem run_sentence_similarity_scores:
  assumes "tokenizer m (PStr source) \<le> max_seq_length m"
      and "\<forall>c\<in>set cs. tokenizer m (PStr c) \<le> max_seq_length m"
  shows "\<exists>scores w'. run_sentence_similarity u m source cs w = (Inr (SentenceScores scores), w')
            \<and> length scores = length cs
            \<and> (\<forall>i<length cs. scores ! i = cos u (encode m (PStr source)) (encode m (PStr (cs ! i))))"
  using assms
  by (simp add: run_sentence_similarity_def prevent_truncation_iff prevent_truncation_each_iff
        model_encode_def model_encode_batch_def cos_sim_def py_index_def)

theorem run_sentence_similarity_scores_witness:
  "tokenizer example_model (PStr ''ab'') \<le> max_seq_length example_model
   \<and> list_all (\<lambda>c. tokenizer example_model (PStr c) \<le> max_seq_length example_model)
         [''a'', ''abc'']
   \<and> fst (run_sentence_similarity example_util example_model ''ab'' [''a'', ''abc''] example_world)
       = Inr (SentenceScores [2, 6])"
proof -
  have h1: "tokenizer example_model (PStr ''ab'') \<le> max_seq_length example_model"
    by (simp add: example_model_def)
  have h2: "\<forall>c\<in>set [''a'', ''abc'']. tokenizer example_model (PStr c) \<le> max_seq_length example_model"
    by (simp add: example_model_def)
  from run_sentence_similarity_scores [OF h1 h2, of example_util example_world]
  obtain scores w' where r: "run_sentence_similarity example_util example_model ''ab''
        [''a'', ''abc''] example_world = (Inr (SentenceScores scores), w')"
    and l: "length scores = 2"
    and s: "\<forall>i<2. scores ! i = cos example_util (encode example_model (PStr ''ab''))
                (encode example_model (PStr ([''a'', ''abc''] ! i)))"
    by auto
  from s have v: "scores ! 0 = 2" "scores ! 1 = 6"
    by (simp_all add: example_util_def example_model_def)
  from l obtain a b where "scores = [a, b]"
    by (auto simp: length_Suc_conv numeral_2_eq_2)
  with v have "scores = [2, 6]" by simp
  with r h1 h2 show ?thesis by (simp add: list_all_iff)
qed

section \<open>Saving into an existing directory\<close>

text \<open>
  Claim C8. When the target path names a directory that already exists, \<^verbatim>\<open>save\<close> fails
  with an error and leaves the file system as it was: no config record is written and
  no model weights are serialized.
\<close>

theorem save_existing_directory:
  assumes "map_of d (abspath x (strip p)) = Some Directory"
  shows "\<exists>e. save x self (Is p) d = (Inl e, d)"
  using assms
  by (cases self) (simp add: save_def type_check_def value_check_def makedirs_def)

theorem save_existing_directory_witness:
  "map_of example_fs (abspath example_externals (strip '' /m '')) = Some Directory
   \<and> (\<exists>e. save example_externals (TextEmbedding ''model'') (Is '' /m '') example_fs
            = (Inl e, example_fs))"
proof -
  have s: "strip '' /m '' = ''/m''"
    by (simp add: strip_def is_space_def)
  have h: "map_of example_fs (abspath example_externals (strip '' /m '')) = Some Directory"
    by (simp add: s example_fs_def example_externals_def)
  from save_existing_directory [OF h, of "TextEmbedding ''model''"] h show ?thesis by simp
qed

section \<open>Loading from an incomplete artifact directory\<close>

text \<open>
  Claim C9. When the config record of the artifact directory lacks the artifacts-path
  key, \<^verbatim>\<open>load\<close> fails with the configuration error of the value check; when the key
  names a subdirectory that does not exist on disk, \<^verbatim>\<open>load\<close> fails with a file-not-found
  error. In both cases no model handle is produced and the state is unchanged.
\<close>

theorem load_missing_config:
  "(ModuleConfig_load (fs s) p = Inr c \<and> map_of (entries c) ARTIFACTS_PATH_KEY = None
      \<longrightarrow> load f x p s = (Inl (ValueError ''<NLP07391618E>''), s))
   \<and> (ModuleConfig_load (fs s) p = Inr c \<and> map_of (entries c) ARTIFACTS_PATH_KEY = Some a
        \<and> a \<noteq> [] \<and> map_of (fs s) (path_join (config_model_path c) a) = None
      \<longrightarrow> load f x p s = (Inl (FileNotFoundError ''<NLP34197772E>''), s))"
  by (simp add: load_def value_check_def dir_check_def)

theorem load_missing_config_witness:
  "ModuleConfig_load (fs example_host) ''/bad''
       = Inr \<lparr>entries = [(''name'', ''Text Embedding'')], config_model_path = ''/bad''\<rparr>
   \<and> map_of [(''name'', ''Text Embedding'')] ARTIFACTS_PATH_KEY = None
   \<and> load example_flags example_externals ''/bad'' example_host
       = (Inl (ValueError ''<NLP07391618E>''), example_host)
   \<and> ModuleConfig_load (fs example_host) ''/gone''
       = Inr \<lparr>entries = [(''artifacts_path'', ''artifacts'')], config_model_path = ''/gone''\<rparr>
   \<and> map_of (fs example_host) (path_join ''/gone'' ''artifacts'') = None
   \<and> load example_flags example_externals ''/gone'' example_host
       = (Inl (FileNotFoundError ''<NLP34197772E>''), example_host)"
proof -
  have b: "ModuleConfig_load (fs example_host) ''/bad''
       = Inr \<lparr>entries = [(''name'', ''Text Embedding'')], config_model_path = ''/bad''\<rparr>"
    by (simp add: ModuleConfig_load_def example_host_def example_fs_def path_join_def)
  have bk: "map_of [(''name'', ''Text Embedding'')] ARTIFACTS_PATH_KEY = None"
    by (simp add: ARTIFACTS_PATH_KEY_def)
  have g: "ModuleConfig_load (fs example_host) ''/gone''
       = Inr \<lparr>entries = [(''artifacts_path'', ''artifacts'')], config_model_path = ''/gone''\<rparr>"
    by (simp add: ModuleConfig_load_def example_host_def example_fs_def path_join_def)
  have gk: "map_of [(''artifacts_path'', ''artifacts'')] ARTIFACTS_PATH_KEY = Some ''artifacts''"
    by (simp add: ARTIFACTS_PATH_KEY_def)
  have gn: "map_of (fs example_host) (path_join ''/gone'' ''artifacts'') = None"
    by (simp add: example_host_def example_fs_def path_join_def)
  from load_missing_config [where s = example_host and p = "''/bad''" and f = example_flags
      and x = example_externals
      and c = "\<lparr>entries = [(''name'', ''Text Embedding'')], config_model_path = ''/bad''\<rparr>"]
    b bk
  have l1: "load example_flags example_externals ''/bad'' example_host
       = (Inl (ValueError ''<NLP07391618E>''), example_host)"
    by simp
  from load_missing_config [where s = example_host and p = "''/gone''" and f = example_flags
      and x = example_externals and a = "''artifacts''"
      and c = "\<lparr>entries = [(''artifacts_path'', ''artifacts'')], config_model_path = ''/gone''\<rparr>"]
    g gk gn
  have l2: "load example_flags example_externals ''/gone'' example_host
       = (Inl (FileNotFoundError ''<NLP34197772E>''), example_host)"
    by simp
  from b bk g gn l1 l2 show ?thesis by simp
qed

section \<open>Reranking leaves the caller's records untouched\<close>

text \<open>
  Claim C10. A call of \<^verbatim>\<open>run_rerank_queries\<close> leaves every dictionary that existed before
  the call, and so every document record of the caller, as it was: whatever the outcome,
  the store after the call begins with the store before it. The renaming of
  \<^verbatim>\<open>corpus_id\<close> to \<^verbatim>\<open>index\<close> and the attachment of the document and the text are done on
  the dictionaries the search created. The lists of queries and of documents are only
  read by the code (length, iteration, indexing) and are values of the model.
\<close>

theorem rerank_frame:
  "take (length (heap w))
     (heap (snd (run_rerank_queries u m queries documents top_n rd rq rt w))) = heap w"
proof (cases queries)
  case IsNot
  then show ?thesis by (simp add: run_rerank_queries_def type_check_def)
next
  case (Is qs)
  show ?thesis
  proof (cases documents)
    case IsNot
    with Is show ?thesis by (simp add: run_rerank_queries_def type_check_def)
  next
    case ds: (Is ds)
    define k where "k = (case top_n of None \<Rightarrow> int (length ds)
                         | Some n \<Rightarrow> if n < 1 then int (length ds) else n)"
    define doc_texts where "doc_texts = map (\<lambda>srd. get_text (heap w) (heap w ! srd)) ds"
    define w2 where "w2 = snd (model_encode_batch m (map PStr qs) (snd (model_encode_batch m doc_texts w)))"
    define de where "de = normalize_embeddings u (fst (model_encode_batch m doc_texts w))"
    define qe where "qe = normalize_embeddings u
        (fst (model_encode_batch m (map PStr qs) (snd (model_encode_batch m doc_texts w))))"
    have h2: "heap w2 = heap w" by (simp add: w2_def model_encode_batch_def)
    obtain res w3 where s: "semantic_search (dot u) k de qe w2 = (res, w3)"
      by (cases "semantic_search (dot u) k de qe w2")
    obtain r w4 where f: "fixup_rows ds rd rt res w3 = (r, w4)"
      by (cases "fixup_rows ds rd rt res w3")
    note fr = rerank_tail_frame [OF s f, unfolded h2]
    show ?thesis
      using Is ds s f fr
      by (simp add: run_rerank_queries_def type_check_def Let_def split_beta
            k_def [symmetric] doc_texts_def [symmetric] w2_def [symmetric]
            de_def [symmetric] qe_def [symmetric]
          split: sum.splits)
  qed
qed

theorem rerank_frame_witness:
  "take 3 (heap (snd (run_rerank_queries example_util example_model (Is [''a'', ''abc''])
       (Is [0, 1, 2]) (Some 2) True True True example_world)))
     = [[(''text'', PStr ''ab'')], [(''_text'', PStr ''abcd'')], [(''title'', PStr ''x'')]]"
  using rerank_frame [of example_world example_util example_model "Is [''a'', ''abc'']"
      "Is [0, 1, 2]" "Some 2" True True True]
  by (simp add: example_world_def numeral_3_eq_3)

end
